theory Spec2Isabelle
  imports Complex_Main
begin

section \<open>Live recognition: the data of \<open>LiveRecognition.tsx\<close>\<close>

text \<open>
  A JavaScript number is a double; it is modelled by the real number it denotes, and
  every arithmetic operation of the code that can round is followed by
  \<open>roundDouble\<close> (below).  List lengths and counters are naturals and clock readings
  (\<open>Date.now()\<close>, milliseconds) integers: they stay far below \<open>2^53\<close>, where doubles
  are exact.
\<close>

record Box =
  box_x :: real
  box_y :: real
  box_width :: real
  box_height :: real

text \<open>
  \<open>interface RecognitionResult\<close>.  The field \<open>id\<close> is the string
  \<open>Math.random().toString(36).substr(2, 9)\<close>; the model keeps the random draw the
  string is printed from.
\<close>

record RecognitionResult =
  result_id :: real
  result_name :: string
  confidence :: real
  box :: Box
  timestamp :: int

text \<open>
  \<open>interface FaceRegistration\<close>, a row of the table \<open>face_registrations\<close>.
  \<open>created_at\<close> is kept as the instant it denotes.
\<close>

record FaceRegistration =
  reg_id :: string
  reg_name :: string
  face_encoding :: string
  created_at :: int

record Statistics =
  detectedFaces :: nat
  recognitionAccuracy :: real
  frameRate :: real
  totalRecognitions :: nat

text \<open>One element of the array returned by the face detector: its box and its descriptor.\<close>

record Detection =
  det_box :: Box
  descriptor :: "real list"

text \<open>The local \<open>bestMatch: { name: string; distance: number } | null\<close>.\<close>

record BestMatch =
  match_name :: string
  distance :: real

section \<open>Double arithmetic\<close>

text \<open>
  The nearest integer, a tie going to the even one.
\<close>

definition roundEven :: "real \<Rightarrow> int" where
  "roundEven y =
     (if y - of_int \<lfloor>y\<rfloor> < 1/2 then \<lfloor>y\<rfloor>
      else if 1/2 < y - of_int \<lfloor>y\<rfloor> then \<lfloor>y\<rfloor> + 1
      else if even \<lfloor>y\<rfloor> then \<lfloor>y\<rfloor> else \<lfloor>y\<rfloor> + 1)"

text \<open>
  The exponent of the spacing of the doubles around \<open>x\<close>: a double between \<open>2^e\<close> and
  \<open>2^(e+1)\<close> has 53 significant bits, so its neighbours are \<open>2^(e-52)\<close> apart; near 0
  (the subnormal numbers) the spacing is \<open>2^(-1074)\<close>.
\<close>

definition ulpExp :: "real \<Rightarrow> int" where
  "ulpExp x = max (\<lfloor>log 2 \<bar>x\<bar>\<rfloor> - 52) (- 1074)"

text \<open>
  The double nearest to the real \<open>x\<close>, ties to even: what an arithmetic operation of
  IEEE 754 returns for the exact result \<open>x\<close>.  Overflow to infinity is left out; no
  value of this program comes near \<open>2^1024\<close>.
\<close>

definition roundDouble :: "real \<Rightarrow> real" where
  "roundDouble x =
     (if x = 0 then 0
      else of_int (roundEven (x / 2 powi ulpExp x)) * 2 powi ulpExp x)"

text \<open>The doubles that the literals \<open>0.8\<close> and \<open>0.6\<close> of the source denote.\<close>

definition lit08 :: real where
  "lit08 = roundDouble 0.8"

definition lit06 :: real where
  "lit06 = roundDouble 0.6"

section \<open>Comparing one detection with the registered faces\<close>

text \<open>
  \<open>Math.random()\<close> is an input of the run: \<open>rnd k\<close> is the double returned by the
  \<open>k\<close>-th call made while one frame is processed.  The language guarantees
  \<open>0 \<le> rnd k < 1\<close>; theorems that need the range assume it.

  \<open>const mockDistance = Math.random() * 0.8\<close>, as a function of the draw.
\<close>

definition mockDistance :: "real \<Rightarrow> real" where
  "mockDistance u = roundDouble (u * lit08)"

text \<open>
  The inner loop \<open>for (const registered of registeredFaces)\<close>: the faces still to
  visit, the number of \<open>Math.random()\<close> calls made so far, and the current
  \<open>bestMatch\<close>.  Neither the detection's descriptor nor \<open>face_encoding\<close> is read.
\<close>

fun bestMatchLoop ::
  "(nat \<Rightarrow> real) \<Rightarrow> FaceRegistration list \<Rightarrow> nat \<Rightarrow> BestMatch option \<Rightarrow> BestMatch option" where
  "bestMatchLoop rnd [] k bestMatch = bestMatch"
| "bestMatchLoop rnd (registered # rest) k bestMatch =
     (let d = mockDistance (rnd k) in
      bestMatchLoop rnd rest (Suc k)
        (if d < lit06 \<and> (case bestMatch of None \<Rightarrow> True | Some b \<Rightarrow> d < distance b)
         then Some \<lparr>match_name = reg_name registered, distance = d\<rparr>
         else bestMatch))"

text \<open>\<open>bestMatch ? (1 - bestMatch.distance) * 100 : 0\<close>\<close>

definition confidenceOf :: "BestMatch option \<Rightarrow> real" where
  "confidenceOf bestMatch =
     (case bestMatch of
        Some b \<Rightarrow> roundDouble (roundDouble (1 - distance b) * 100)
      | None \<Rightarrow> 0)"

text \<open>\<open>bestMatch ? bestMatch.name : 'Unknown Person'\<close>\<close>

definition nameOf :: "BestMatch option \<Rightarrow> string" where
  "nameOf bestMatch =
     (case bestMatch of Some b \<Rightarrow> match_name b | None \<Rightarrow> ''Unknown Person'')"

text \<open>
  The outer loop \<open>for (const detection of detections)\<close>.  \<open>k\<close> counts the calls of
  \<open>Math.random()\<close> and \<open>j\<close> the clock readings made so far in this run; \<open>clk j\<close>
  is the \<open>j\<close>-th reading.  Each detection costs one draw per registered face, then one
  draw for the id, and one clock reading for the timestamp.
\<close>

fun recognise ::
  "(nat \<Rightarrow> real) \<Rightarrow> (nat \<Rightarrow> int) \<Rightarrow> FaceRegistration list \<Rightarrow> Detection list \<Rightarrow> nat \<Rightarrow> nat
     \<Rightarrow> RecognitionResult list" where
  "recognise rnd clk faces [] k j = []"
| "recognise rnd clk faces (detection # rest) k j =
     (let bestMatch = bestMatchLoop rnd faces k None;
          k' = k + length faces;
          result = \<lparr>result_id = rnd k',
                    result_name = nameOf bestMatch,
                    confidence = confidenceOf bestMatch,
                    box = det_box detection,
                    timestamp = clk j\<rparr>
      in result # recognise rnd clk faces rest (Suc k') (Suc j))"

definition frameResults ::
  "(nat \<Rightarrow> real) \<Rightarrow> (nat \<Rightarrow> int) \<Rightarrow> FaceRegistration list \<Rightarrow> Detection list
     \<Rightarrow> RecognitionResult list" where
  "frameResults rnd clk faces dets = recognise rnd clk faces dets 0 0"

section \<open>The component state\<close>

text \<open>
  A function value \<open>processFrame\<close>.  \<open>useCallback\<close> with the dependencies
  \<open>[isModelsLoaded, isRecognitionActive, registeredFaces]\<close> builds a new function each
  time one of them changes, and each such function reads the values of the render that
  built it.  A function value is therefore the three values it captured.
\<close>

record ProcessFrame =
  cap_isModelsLoaded :: bool
  cap_isRecognitionActive :: bool
  cap_registeredFaces :: "FaceRegistration list"

text \<open>
  The \<open>useState\<close> cells and \<open>useRef\<close> boxes of the component that recognition
  uses, and three pieces of the browser's state: the interval timers that are running (handle
  and callback), the detector calls that were started and have not settled yet (each
  with the function that awaits it), and a count of the detector calls started so far.
  The full-screen flag, the web socket and the media stream are left out.
\<close>

record Component =
  isRecognitionActive :: bool
  isCameraActive :: bool
  isModelsLoaded :: bool
  recognitionResults :: "RecognitionResult list"
  registeredFaces :: "FaceRegistration list"
  recognitionHistory :: "RecognitionResult list"
  statistics :: Statistics
  frameCountRef :: nat
  lastFrameTimeRef :: int
  intervalRef :: "nat option"
  timers :: "(nat \<times> ProcessFrame) list"
  nextTimer :: nat
  inFlight :: "ProcessFrame list"
  detectCalls :: nat

record Toast =
  toast_title :: string
  toast_description :: string
  toast_variant :: string

text \<open>The state after the first render at time \<open>t0\<close> (\<open>useRef(Date.now())\<close>).\<close>

definition mount :: "int \<Rightarrow> Component" where
  "mount t0 =
     \<lparr>isRecognitionActive = False, isCameraActive = False, isModelsLoaded = False,
      recognitionResults = [], registeredFaces = [], recognitionHistory = [],
      statistics = \<lparr>detectedFaces = 0, recognitionAccuracy = 0, frameRate = 0,
                    totalRecognitions = 0\<rparr>,
      frameCountRef = 0, lastFrameTimeRef = t0, intervalRef = None,
      timers = [], nextTimer = 1, inFlight = [], detectCalls = 0\<rparr>"

text \<open>The \<open>processFrame\<close> of the current render.\<close>

definition processFrame_of :: "Component \<Rightarrow> ProcessFrame" where
  "processFrame_of s =
     \<lparr>cap_isModelsLoaded = isModelsLoaded s,
      cap_isRecognitionActive = isRecognitionActive s,
      cap_registeredFaces = registeredFaces s\<rparr>"

section \<open>\<open>processFrame\<close>\<close>

text \<open>\<open>results.filter(r => r.name !== 'Unknown Person').length\<close>\<close>

definition matchedCount :: "RecognitionResult list \<Rightarrow> nat" where
  "matchedCount results = length (filter (\<lambda>r. result_name r \<noteq> ''Unknown Person'') results)"

text \<open>
  What one settled detector call hands to the rest of \<open>processFrame\<close>: the detections,
  and the values \<open>Math.random()\<close> and the clock return while the rest runs.
\<close>

record Frame =
  fr_detections :: "Detection list"
  fr_random :: "nat \<Rightarrow> real"
  fr_clock :: "nat \<Rightarrow> int"

text \<open>
  \<open>processFrame\<close> up to its \<open>await\<close>.  \<open>ready\<close> says that the video and canvas
  elements are mounted and the canvas gives a 2d context.  Past the guards the detector
  is called; nothing looks at calls that are still outstanding.
\<close>

definition processFrame_begin :: "ProcessFrame \<Rightarrow> bool \<Rightarrow> Component \<Rightarrow> Component" where
  "processFrame_begin pf ready s =
     (if \<not> ready \<or> \<not> cap_isModelsLoaded pf \<or> \<not> cap_isRecognitionActive pf then s
      else s\<lparr>inFlight := inFlight s @ [pf], detectCalls := Suc (detectCalls s)\<rparr>)"

text \<open>
  \<open>processFrame\<close> after the \<open>await\<close>, when the detector has returned.  The refs and
  the functional state updates read the state of that moment; \<open>registeredFaces\<close> is the
  captured list.  Drawing on the canvas and the web-socket message change nothing that
  is modelled.
\<close>

definition processFrame_resume :: "ProcessFrame \<Rightarrow> Frame \<Rightarrow> Component \<Rightarrow> Component" where
  "processFrame_resume pf fr s =
     (if length (fr_detections fr) = 0 then
        s\<lparr>recognitionResults := [],
          statistics := (statistics s)\<lparr>detectedFaces := 0\<rparr>\<rparr>
      else
        let results = frameResults (fr_random fr) (fr_clock fr) (cap_registeredFaces pf)
                        (fr_detections fr);
            frameCount = Suc (frameCountRef s);
            now = fr_clock fr (length (fr_detections fr));
            timeDiff = now - lastFrameTimeRef s;
            s1 = s\<lparr>recognitionResults := results, frameCountRef := frameCount\<rparr>;
            s2 = (if timeDiff \<ge> 1000 then
                    let fps = roundDouble (real (frameCount * 1000) / real_of_int timeDiff);
                        accuracy =
                          (if length results > 0
                           then roundDouble
                                  (roundDouble
                                     (real (matchedCount results) / real (length results))
                                   * 100)
                           else 0)
                    in s1\<lparr>statistics :=
                            \<lparr>detectedFaces = length results,
                             recognitionAccuracy = accuracy,
                             frameRate = fps,
                             totalRecognitions =
                               totalRecognitions (statistics s1) + matchedCount results\<rparr>,
                          frameCountRef := 0,
                          lastFrameTimeRef := now\<rparr>
                  else s1)
        in s2\<lparr>recognitionHistory := take 100 (results @ recognitionHistory s2)\<rparr>)"

text \<open>
  Several detector calls settling one after the other, each with the function value
  that awaited it.
\<close>

fun processFrames :: "(ProcessFrame \<times> Frame) list \<Rightarrow> Component \<Rightarrow> Component" where
  "processFrames [] s = s"
| "processFrames (call # calls) s =
     processFrames calls (processFrame_resume (fst call) (snd call) s)"


text \<open>
  The frames of a window.  A call is kept in the window started at \<open>t0\<close> when its
  frame has no face or is handled less than 1000 ms after \<open>t0\<close>: it does not flush the
  statistics.  \<open>framesWithFaces\<close> counts the calls whose frame has a face.
\<close>

definition staysInWindow :: "int \<Rightarrow> ProcessFrame \<times> Frame \<Rightarrow> bool" where
  "staysInWindow t0 call \<longleftrightarrow>
     fr_detections (snd call) = [] \<or>
     fr_clock (snd call) (length (fr_detections (snd call))) - t0 < 1000"

definition framesWithFaces :: "(ProcessFrame \<times> Frame) list \<Rightarrow> nat" where
  "framesWithFaces calls = length (filter (\<lambda>call. fr_detections (snd call) \<noteq> []) calls)"

section \<open>Loading the gallery\<close>

text \<open>
  \<open>loadRegisteredFaces\<close> asks the table for all rows with
  \<open>.order('created_at', { ascending: false })\<close>.  The reply is either an error
  (\<open>None\<close>) or the rows; a row list the table returns is \<open>newestFirst\<close>.
\<close>

definition newestFirst :: "FaceRegistration list \<Rightarrow> bool" where
  "newestFirst rows = sorted_wrt (\<lambda>a b. created_at b \<le> created_at a) rows"

definition databaseError :: Toast where
  "databaseError =
     \<lparr>toast_title = ''Database Error'',
      toast_description = ''Failed to load registered faces.'',
      toast_variant = ''destructive''\<rparr>"

definition loadRegisteredFaces ::
  "FaceRegistration list option \<Rightarrow> Component \<Rightarrow> Toast option \<times> Component" where
  "loadRegisteredFaces reply s =
     (case reply of
        Some rows \<Rightarrow> (None, s\<lparr>registeredFaces := rows\<rparr>)
      | None \<Rightarrow> (Some databaseError, s))"

section \<open>Camera and recognition controls\<close>

definition stopCamera :: "Component \<Rightarrow> Component" where
  "stopCamera s = s\<lparr>isCameraActive := False, isRecognitionActive := False\<rparr>"

definition clearInterval :: "nat \<Rightarrow> (nat \<times> ProcessFrame) list \<Rightarrow> (nat \<times> ProcessFrame) list" where
  "clearInterval h ts = filter (\<lambda>t. fst t \<noteq> h) ts"

definition cameraRequired :: Toast where
  "cameraRequired =
     \<lparr>toast_title = ''Camera Required'',
      toast_description = ''Please start the camera first.'',
      toast_variant = ''destructive''\<rparr>"

text \<open>
  \<open>toggleRecognition\<close> returns the toast it shows, if any, and the new state.
  \<open>setInterval(processFrame, 500)\<close> registers the \<open>processFrame\<close> of the render in
  which the button was pressed, and the timer keeps calling that function value; the
  function values that later renders build are never given to it.  \<open>stopCamera\<close>
  leaves a running timer alone.
\<close>

definition toggleRecognition :: "Component \<Rightarrow> Toast option \<times> Component" where
  "toggleRecognition s =
     (if isRecognitionActive s then
        (None,
         (case intervalRef s of
            Some h \<Rightarrow> s\<lparr>timers := clearInterval h (timers s), intervalRef := None\<rparr>
          | None \<Rightarrow> s)\<lparr>isRecognitionActive := False\<rparr>)
      else if \<not> isCameraActive s then (Some cameraRequired, s)
      else
        (None,
         s\<lparr>isRecognitionActive := True,
           intervalRef := Some (nextTimer s),
           timers := timers s @ [(nextTimer s, processFrame_of s)],
           nextTimer := Suc (nextTimer s)\<rparr>))"

text \<open>The session states of the specification, read off the two flags.\<close>

datatype SessionState = Idle | CameraReady | Recognizing

definition sessionState :: "Component \<Rightarrow> SessionState" where
  "sessionState s =
     (if \<not> isCameraActive s then Idle
      else if isRecognitionActive s then Recognizing
      else CameraReady)"

section \<open>Events\<close>

text \<open>
  JavaScript runs one callback at a time, so the component's life is a sequence of
  events: the models being loaded, the gallery query returning, the camera being
  granted or refused, a button press, an interval timer firing (its handle, and whether
  the canvas is there), and a detector call settling (which outstanding call, and with
  what).  A sequence ends when the component is unmounted.
\<close>

datatype event =
    ModelsLoaded
  | FacesLoaded "FaceRegistration list option"
  | CameraGranted
  | CameraDenied
  | StopCamera
  | ToggleRecognition
  | Tick nat bool
  | DetectionResolved nat Frame
  | DetectionRejected nat

definition settle :: "nat \<Rightarrow> ProcessFrame list \<Rightarrow> ProcessFrame list" where
  "settle i calls = take i calls @ drop (Suc i) calls"

fun step :: "event \<Rightarrow> Component \<Rightarrow> Component" where
  "step ModelsLoaded s = s\<lparr>isModelsLoaded := True\<rparr>"
| "step (FacesLoaded reply) s = snd (loadRegisteredFaces reply s)"
| "step CameraGranted s = s\<lparr>isCameraActive := True\<rparr>"
| "step CameraDenied s = s"
| "step StopCamera s = stopCamera s"
| "step ToggleRecognition s = snd (toggleRecognition s)"
| "step (Tick h ready) s =
     (case map_of (timers s) h of
        Some pf \<Rightarrow> processFrame_begin pf ready s
      | None \<Rightarrow> s)"
| "step (DetectionResolved i fr) s =
     (if i < length (inFlight s)
      then processFrame_resume (inFlight s ! i) fr (s\<lparr>inFlight := settle i (inFlight s)\<rparr>)
      else s)"
| "step (DetectionRejected i) s =
     (if i < length (inFlight s) then s\<lparr>inFlight := settle i (inFlight s)\<rparr> else s)"

fun run :: "event list \<Rightarrow> Component \<Rightarrow> Component" where
  "run [] s = s"
| "run (e # es) s = run es (step e s)"

text \<open>
  A state in which every interval callback captured \<open>isRecognitionActive = false\<close>,
  no detector call is outstanding and none was ever started.
\<close>

definition timersInert :: "Component \<Rightarrow> bool" where
  "timersInert s \<longleftrightarrow>
     list_all (\<lambda>t. \<not> cap_isRecognitionActive (snd t)) (timers s) \<and>
     inFlight s = [] \<and> detectCalls s = 0"

section \<open>The formulas of the specification, for comparison\<close>

text \<open>
  The specification's \<open>clamp((1 - distance/distance_max) * 100, 0, 100)\<close>, written from
  its words and computed in doubles; the code has no such function.
\<close>

definition clampConfidence :: "real \<Rightarrow> real \<Rightarrow> real" where
  "clampConfidence distance_max d =
     max 0 (min 100 (roundDouble (roundDouble (1 - roundDouble (d / distance_max)) * 100)))"

section \<open>Sample inputs\<close>

text \<open>
  A run whose first calls of \<open>Math.random()\<close> return the listed values (and 0 from
  then on), and likewise for the clock.
\<close>

definition sampleDraws :: "real list \<Rightarrow> nat \<Rightarrow> real" where
  "sampleDraws us n = (if n < length us then us ! n else 0)"

definition sampleClock :: "int list \<Rightarrow> nat \<Rightarrow> int" where
  "sampleClock ts n = (if n < length ts then ts ! n else 0)"

definition alice :: FaceRegistration where
  "alice = \<lparr>reg_id = ''a1'', reg_name = ''Alice'', face_encoding = ''[0.1,0.2]'',
            created_at = 1000\<rparr>"

definition bob :: FaceRegistration where
  "bob = \<lparr>reg_id = ''b2'', reg_name = ''Bob'', face_encoding = ''[0.3,0.4]'',
          created_at = 2000\<rparr>"

text \<open>A person enrolled under the name the code gives to unmatched faces.\<close>

definition nobody :: FaceRegistration where
  "nobody = \<lparr>reg_id = ''n3'', reg_name = ''Unknown Person'', face_encoding = ''[0.5,0.6]'',
             created_at = 3000\<rparr>"

definition face0 :: Detection where
  "face0 = \<lparr>det_box = \<lparr>box_x = 10, box_y = 20, box_width = 64, box_height = 64\<rparr>,
            descriptor = [0.1, 0.2]\<rparr>"

text \<open>A \<open>processFrame\<close> whose captured flags let it pass its guards.\<close>

definition activeFrame :: "FaceRegistration list \<Rightarrow> ProcessFrame" where
  "activeFrame faces =
     \<lparr>cap_isModelsLoaded = True, cap_isRecognitionActive = True, cap_registeredFaces = faces\<rparr>"

definition sampleFrame :: "Detection list \<Rightarrow> real list \<Rightarrow> int list \<Rightarrow> Frame" where
  "sampleFrame dets draws readings =
     \<lparr>fr_detections = dets, fr_random = sampleDraws draws, fr_clock = sampleClock readings\<rparr>"

section \<open>Rounding to the nearest double\<close>

lemma roundEven_of_int: "roundEven (of_int n) = n"
  by (simp add: roundEven_def)

lemma roundEven_cases: "roundEven y = \<lfloor>y\<rfloor> \<or> roundEven y = \<lfloor>y\<rfloor> + 1"
  by (simp add: roundEven_def)

lemma roundEven_mono:
  assumes "x \<le> y"
  shows "roundEven x \<le> roundEven y"
proof (cases "\<lfloor>x\<rfloor> < \<lfloor>y\<rfloor>")
  case True
  have "roundEven x \<le> \<lfloor>x\<rfloor> + 1" using roundEven_cases [of x] by auto
  also have "\<dots> \<le> \<lfloor>y\<rfloor>" using True by simp
  also have "\<dots> \<le> roundEven y" using roundEven_cases [of y] by auto
  finally show ?thesis .
next
  case False
  with assms have eq: "\<lfloor>x\<rfloor> = \<lfloor>y\<rfloor>"
    using floor_mono [of x y] by simp
  then have "x - of_int \<lfloor>x\<rfloor> \<le> y - of_int \<lfloor>y\<rfloor>" using assms by simp
  with eq show ?thesis
    by (auto simp: roundEven_def)
qed

lemma roundEven_le: "y \<le> of_int m \<Longrightarrow> roundEven y \<le> m"
  using roundEven_mono [of y "of_int m"] by (simp add: roundEven_of_int)

lemma roundEven_ge: "of_int m \<le> y \<Longrightarrow> m \<le> roundEven y"
  using roundEven_mono [of "of_int m" y] by (simp add: roundEven_of_int)

lemma floor_log2_bounds:
  assumes "0 < x"
  shows "2 powi \<lfloor>log 2 x\<rfloor> \<le> x" and "x < 2 powi (\<lfloor>log 2 x\<rfloor> + 1)"
proof -
  have "2 powr real_of_int \<lfloor>log 2 x\<rfloor> \<le> x \<and> x < 2 powr (real_of_int \<lfloor>log 2 x\<rfloor> + 1)"
    using floor_log_eq_powr_iff [of x 2 "\<lfloor>log 2 x\<rfloor>"] assms by simp
  moreover have "real_of_int \<lfloor>log 2 x\<rfloor> + 1 = real_of_int (\<lfloor>log 2 x\<rfloor> + 1)" by simp
  ultimately show "2 powi \<lfloor>log 2 x\<rfloor> \<le> x" and "x < 2 powi (\<lfloor>log 2 x\<rfloor> + 1)"
    by (simp_all only: powr_real_of_int' [of 2, simplified])
qed

lemma floor_log2_eq:
  assumes "0 < x" "2 powi e \<le> x" "x < 2 powi (e + 1)"
  shows "\<lfloor>log 2 x\<rfloor> = e"
proof -
  have "2 powr real_of_int e \<le> x \<and> x < 2 powr (real_of_int e + 1)"
    using assms(2,3) powr_real_of_int' [of 2 e] powr_real_of_int' [of 2 "e + 1"]
    by simp
  then show ?thesis
    using floor_log_eq_powr_iff [of x 2 e] assms(1) by simp
qed

lemma ulpExp_ge: "- 1074 \<le> ulpExp x"
  by (simp add: ulpExp_def)

lemma ulpExp_ge_floor: "\<lfloor>log 2 \<bar>x\<bar>\<rfloor> - 52 \<le> ulpExp x"
  by (simp add: ulpExp_def)

lemma ulpExp_mono:
  assumes "0 < x" "x \<le> y"
  shows "ulpExp x \<le> ulpExp y"
proof -
  have "log 2 x \<le> log 2 y" using assms by simp
  then have "\<lfloor>log 2 x\<rfloor> \<le> \<lfloor>log 2 y\<rfloor>" by (rule floor_mono)
  with assms show ?thesis by (simp add: ulpExp_def)
qed

lemma pow2_split: "2 powi a = 2 powi (a - b) * (2 powi b :: real)"
  by (simp flip: power_int_add)

lemma pow2_nonneg_int: "0 \<le> a \<Longrightarrow> (2 powi a :: real) = of_int (2 ^ nat a)"
  by (simp add: power_int_def)

lemma exp_less_of_pow2: "(2 powi a :: real) \<le> x \<Longrightarrow> x < 2 powi b \<Longrightarrow> a < b"
proof (rule ccontr)
  assume "2 powi a \<le> x" "x < 2 powi b" "\<not> a < b"
  then have "(2 powi b :: real) \<le> 2 powi a"
    by (intro power_int_increasing) auto
  with \<open>2 powi a \<le> x\<close> \<open>x < 2 powi b\<close> show False by simp
qed

lemma scaled_less:
  assumes "x \<noteq> 0"
  shows "\<bar>x\<bar> / 2 powi ulpExp x < 2 ^ 53"
proof -
  let ?e = "\<lfloor>log 2 \<bar>x\<bar>\<rfloor>"
  let ?j = "ulpExp x"
  have pos: "0 < \<bar>x\<bar>" using assms by simp
  have "\<bar>x\<bar> < 2 powi (?e + 1)" using floor_log2_bounds(2) [OF pos] .
  also have "\<dots> = 2 powi (?e + 1 - ?j) * 2 powi ?j" by (rule pow2_split)
  finally have "\<bar>x\<bar> / 2 powi ?j < 2 powi (?e + 1 - ?j)"
    by (simp add: field_simps)
  also have "\<dots> \<le> 2 powi 53"
    using ulpExp_ge_floor [of x] by (intro power_int_increasing) auto
  finally show ?thesis by simp
qed

lemma roundDouble_mantissa:
  assumes "x \<noteq> 0"
  shows "\<bar>roundEven (x / 2 powi ulpExp x)\<bar> \<le> 2 ^ 53"
proof -
  let ?y = "x / 2 powi ulpExp x"
  have p: "0 < (2 powi ulpExp x :: real)" by simp
  have "\<bar>?y\<bar> = \<bar>x\<bar> / 2 powi ulpExp x"
    using p by (simp only: abs_divide abs_of_pos)
  then have "\<bar>?y\<bar> < 2 ^ 53" using scaled_less [OF assms] by (simp only:)
  then have "?y < 2 ^ 53 \<and> - ?y < 2 ^ 53" by (simp only: abs_less_iff)
  then have up: "?y \<le> of_int (2 ^ 53)" and low: "of_int (- (2 ^ 53)) \<le> ?y" by simp_all
  have "roundEven ?y \<le> 2 ^ 53" using up by (rule roundEven_le)
  moreover have "- (2 ^ 53) \<le> roundEven ?y" using low by (rule roundEven_ge)
  ultimately show ?thesis by simp
qed

lemma roundDouble_rep_strict:
  assumes k: "- 1074 \<le> k" and n: "\<bar>n\<bar> < 2 ^ 53"
  shows "roundDouble (of_int n * 2 powi k) = of_int n * 2 powi k"
proof (cases "n = 0")
  case True
  then show ?thesis by (simp add: roundDouble_def)
next
  case False
  define x :: real where "x = of_int n * 2 powi k"
  define j where "j = ulpExp x"
  let ?e = "\<lfloor>log 2 \<bar>x\<bar>\<rfloor>"
  have x0: "x \<noteq> 0" using False by (simp add: x_def)
  have pos: "0 < \<bar>x\<bar>" using x0 by simp
  have "\<bar>x\<bar> = of_int \<bar>n\<bar> * 2 powi k" by (simp add: x_def abs_mult)
  also have "\<dots> < 2 ^ 53 * 2 powi k"
  proof -
    have "(of_int \<bar>n\<bar> :: real) < of_int (2 ^ 53)" using n by (simp only: of_int_less_iff)
    then show ?thesis by simp
  qed
  also have "\<dots> = 2 powi (53 + k)" by (simp add: power_int_add)
  finally have "\<bar>x\<bar> < 2 powi (53 + k)" .
  with floor_log2_bounds(1) [OF pos] have "?e < 53 + k" by (rule exp_less_of_pow2)
  with k have jk: "j \<le> k" by (simp add: j_def ulpExp_def)
  have "(2 powi k :: real) = 2 powi (k - j) * 2 powi j" by (rule pow2_split)
  then have "x = of_int n * 2 powi (k - j) * 2 powi j" by (simp add: x_def)
  then have "x / 2 powi j = of_int n * 2 powi (k - j)" by simp
  also have "\<dots> = of_int (n * 2 ^ nat (k - j))"
    using jk by (simp add: pow2_nonneg_int)
  finally have scaled: "x / 2 powi j = of_int (n * 2 ^ nat (k - j))" .
  have "roundDouble x = of_int (roundEven (x / 2 powi j)) * 2 powi j"
    using x0 by (simp only: roundDouble_def j_def if_False)
  also have "\<dots> = of_int (n * 2 ^ nat (k - j)) * 2 powi j"
    by (simp only: scaled roundEven_of_int)
  also have "\<dots> = x / 2 powi j * 2 powi j" by (simp only: scaled)
  also have "\<dots> = x" by simp
  finally show ?thesis by (simp only: x_def)
qed

lemma roundDouble_rep:
  assumes k: "- 1074 \<le> k" and n: "\<bar>n\<bar> \<le> 2 ^ 53"
  shows "roundDouble (of_int n * 2 powi k) = of_int n * 2 powi k"
proof (cases "\<bar>n\<bar> < 2 ^ 53")
  case True
  with k show ?thesis by (rule roundDouble_rep_strict)
next
  case False
  with n have "\<bar>n\<bar> = 2 ^ 53" by simp
  then consider "n = 2 ^ 53" | "n = - (2 ^ 53)" by linarith
  then have "\<exists>m. n = 2 * m \<and> \<bar>m\<bar> < 2 ^ 53"
    by cases (auto intro: exI [of _ "2 ^ 52"] exI [of _ "- (2 ^ 52)"])
  then obtain m where m: "n = 2 * m" "\<bar>m\<bar> < 2 ^ 53" by blast
  have "of_int n * 2 powi k = (of_int m * 2 powi (k + 1) :: real)"
    using m(1) by (simp add: power_int_add)
  moreover have "roundDouble (of_int m * 2 powi (k + 1)) = of_int m * 2 powi (k + 1)"
    using k m(2) by (intro roundDouble_rep_strict) auto
  ultimately show ?thesis by simp
qed

lemma roundDouble_idem: "roundDouble (roundDouble x) = roundDouble x"
proof (cases "x = 0")
  case True
  then show ?thesis by (simp add: roundDouble_def)
next
  case False
  then show ?thesis
    using roundDouble_rep [OF ulpExp_ge roundDouble_mantissa [OF False]]
    by (simp add: roundDouble_def)
qed

lemma roundDouble_nonneg: "0 \<le> x \<Longrightarrow> 0 \<le> roundDouble x"
proof (cases "x = 0")
  case True
  then show ?thesis by (simp add: roundDouble_def)
next
  case False
  assume "0 \<le> x"
  then have "of_int 0 \<le> x / 2 powi ulpExp x" by simp
  then have "0 \<le> roundEven (x / 2 powi ulpExp x)" by (rule roundEven_ge)
  with False show ?thesis by (simp add: roundDouble_def)
qed

lemma roundDouble_mono_pos:
  assumes x: "0 < x" and xy: "x \<le> y"
  shows "roundDouble x \<le> roundDouble y"
proof -
  let ?jx = "ulpExp x" and ?jy = "ulpExp y"
  have y: "0 < y" using x xy by simp
  have rx: "roundDouble x = of_int (roundEven (x / 2 powi ?jx)) * 2 powi ?jx"
    using x by (simp add: roundDouble_def)
  have ry: "roundDouble y = of_int (roundEven (y / 2 powi ?jy)) * 2 powi ?jy"
    using y by (simp add: roundDouble_def)
  have le: "?jx \<le> ?jy" using x xy by (rule ulpExp_mono)
  show ?thesis
  proof (cases "?jx = ?jy")
    case True
    have "x / 2 powi ?jy \<le> y / 2 powi ?jy" using xy by (simp add: divide_right_mono)
    then have "roundEven (x / 2 powi ?jy) \<le> roundEven (y / 2 powi ?jy)"
      by (rule roundEven_mono)
    then have "(of_int (roundEven (x / 2 powi ?jy)) :: real) \<le> of_int (roundEven (y / 2 powi ?jy))"
      by simp
    then show ?thesis
      unfolding rx ry True by (simp add: mult_right_mono)
  next
    case False
    with le have lt: "?jx < ?jy" by simp
    let ?ey = "\<lfloor>log 2 \<bar>y\<bar>\<rfloor>" and ?ex = "\<lfloor>log 2 \<bar>x\<bar>\<rfloor>"
    have "- 1074 < ?jy" using lt ulpExp_ge [of x] by linarith
    then have jy: "?jy = ?ey - 52"
      by (simp add: ulpExp_def max_def split: if_splits)
    have ylow: "2 powi ?ey \<le> y" using floor_log2_bounds(1) [of "\<bar>y\<bar>"] y by simp
    have xup: "x < 2 powi (?ex + 1)" using floor_log2_bounds(2) [of "\<bar>x\<bar>"] x by simp
    have "?ex + 1 \<le> ?ey" using lt jy ulpExp_ge_floor [of x] by simp
    then have "(2 powi (?ex + 1) :: real) \<le> 2 powi ?ey"
      by (intro power_int_increasing) auto
    with xup have xle: "x \<le> 2 powi ?ey" by simp
    \<comment> \<open>the power of two between them is kept by both roundings\<close>
    have "2 powi ?ey = 2 powi (?ey - ?jy) * (2 powi ?jy :: real)" by (rule pow2_split)
    with ylow have "2 powi (?ey - ?jy) \<le> y / 2 powi ?jy" by (simp add: field_simps)
    moreover have "0 \<le> ?ey - ?jy" using jy by simp
    ultimately have "of_int (2 ^ nat (?ey - ?jy)) \<le> y / 2 powi ?jy"
      by (simp add: pow2_nonneg_int)
    then have "2 ^ nat (?ey - ?jy) \<le> roundEven (y / 2 powi ?jy)" by (rule roundEven_ge)
    then have "(of_int (2 ^ nat (?ey - ?jy)) :: real) \<le> of_int (roundEven (y / 2 powi ?jy))"
      by (simp only: of_int_le_iff)
    then have "of_int (2 ^ nat (?ey - ?jy)) * 2 powi ?jy \<le> roundDouble y"
      unfolding ry by (simp add: mult_right_mono)
    moreover have "of_int (2 ^ nat (?ey - ?jy)) * 2 powi ?jy = (2 powi ?ey :: real)"
      using pow2_split [of ?ey ?jy] \<open>0 \<le> ?ey - ?jy\<close> by (simp add: pow2_nonneg_int)
    ultimately have upper: "2 powi ?ey \<le> roundDouble y" by simp
    have "2 powi ?ey = 2 powi (?ey - ?jx) * (2 powi ?jx :: real)" by (rule pow2_split)
    with xle have "x / 2 powi ?jx \<le> 2 powi (?ey - ?jx)" by (simp add: field_simps)
    moreover have nn: "0 \<le> ?ey - ?jx" using jy lt by simp
    ultimately have "x / 2 powi ?jx \<le> of_int (2 ^ nat (?ey - ?jx))"
      by (simp add: pow2_nonneg_int)
    then have "roundEven (x / 2 powi ?jx) \<le> 2 ^ nat (?ey - ?jx)" by (rule roundEven_le)
    then have "(of_int (roundEven (x / 2 powi ?jx)) :: real) \<le> of_int (2 ^ nat (?ey - ?jx))"
      by (simp only: of_int_le_iff)
    then have "roundDouble x \<le> of_int (2 ^ nat (?ey - ?jx)) * 2 powi ?jx"
      unfolding rx by (simp add: mult_right_mono)
    moreover have "of_int (2 ^ nat (?ey - ?jx)) * 2 powi ?jx = (2 powi ?ey :: real)"
      using pow2_split [of ?ey ?jx] nn by (simp add: pow2_nonneg_int)
    ultimately have "roundDouble x \<le> 2 powi ?ey" by simp
    with upper show ?thesis by simp
  qed
qed

lemma roundDouble_mono:
  assumes "0 \<le> x" "x \<le> y"
  shows "roundDouble x \<le> roundDouble y"
proof (cases "x = 0")
  case True
  have "roundDouble 0 = 0" by (simp add: roundDouble_def)
  moreover have "0 \<le> roundDouble y" using assms by (intro roundDouble_nonneg) simp
  ultimately show ?thesis using True by simp
next
  case False
  with assms show ?thesis by (intro roundDouble_mono_pos) auto
qed

lemma roundDouble_eval:
  assumes "2 powi e \<le> \<bar>x\<bar>" "\<bar>x\<bar> < 2 powi (e + 1)" "- 1022 \<le> e"
  shows "roundDouble x = of_int (roundEven (x / 2 powi (e - 52))) * 2 powi (e - 52)"
proof -
  have "0 < (2 powi e :: real)" by simp
  with assms(1) have pos: "0 < \<bar>x\<bar>" by linarith
  then have x0: "x \<noteq> 0" by simp
  have "\<lfloor>log 2 \<bar>x\<bar>\<rfloor> = e" using pos assms(1,2) by (rule floor_log2_eq)
  with assms(3) have "ulpExp x = e - 52" by (simp add: ulpExp_def)
  with x0 show ?thesis by (simp add: roundDouble_def)
qed

text \<open>The two literals, exactly.\<close>

lemma lit08_value: "lit08 = 3602879701896397 / 4503599627370496"
proof -
  have "roundDouble (8 / 10) = of_int (roundEven ((8 / 10) / 2 powi (- 1 - 52))) * 2 powi (- 1 - 52)"
    by (rule roundDouble_eval) simp_all
  moreover have "roundEven ((8 / 10) / 2 powi (- 1 - 52)) = 7205759403792794"
    by (simp add: roundEven_def)
  ultimately have "roundDouble (8 / 10) = of_int 7205759403792794 * 2 powi (- 1 - 52)"
    by (simp only:)
  then show ?thesis by (simp add: lit08_def)
qed

lemma lit06_value: "lit06 = 5404319552844595 / 9007199254740992"
proof -
  have "roundDouble (6 / 10) = of_int (roundEven ((6 / 10) / 2 powi (- 1 - 52))) * 2 powi (- 1 - 52)"
    by (rule roundDouble_eval) simp_all
  moreover have "roundEven ((6 / 10) / 2 powi (- 1 - 52)) = 5404319552844595"
    by (simp add: roundEven_def)
  ultimately have "roundDouble (6 / 10) = of_int 5404319552844595 * 2 powi (- 1 - 52)"
    by (simp only:)
  then show ?thesis by (simp add: lit06_def)
qed

lemma roundDouble_grid:
  assumes low: "1/2 \<le> roundDouble x" and up: "roundDouble x < 1"
  shows "\<exists>n::int. roundDouble x = of_int n / 2 ^ 53"
proof -
  have x0: "x \<noteq> 0" using low by (auto simp: roundDouble_def)
  define k where "k = ulpExp x"
  define n where "n = roundEven (x / 2 powi k)"
  have d: "roundDouble x = of_int n * 2 powi k"
    using x0 by (simp add: roundDouble_def n_def k_def)
  have n53: "n \<le> 2 ^ 53"
    using roundDouble_mantissa [OF x0] by (simp add: n_def k_def)
  have npos: "0 < n"
  proof (rule ccontr)
    assume "\<not> 0 < n"
    then have "of_int n * (2 powi k :: real) \<le> 0"
      by (simp add: mult_le_0_iff)
    with low d show False by simp
  qed
  have k54: "- 54 \<le> k"
  proof (rule ccontr)
    assume "\<not> - 54 \<le> k"
    then have "k \<le> - 55" by simp
    then have "(2 powi k :: real) \<le> 2 powi (- 55)"
      by (intro power_int_increasing) auto
    moreover have "(of_int n :: real) \<le> of_int (2 ^ 53)" using n53 by (simp only: of_int_le_iff)
    ultimately have "of_int n * 2 powi k \<le> (of_int (2 ^ 53) :: real) * 2 powi (- 55)"
      using npos by (intro mult_mono) auto
    also have "\<dots> = 1/4" by simp
    finally show False using low d by simp
  qed
  show ?thesis
  proof (cases "k = - 54")
    case True
    with d low have "1/2 \<le> (of_int n :: real) * 2 powi (- 54)" by simp
    then have "(of_int (2 ^ 53) :: real) \<le> of_int n" by simp
    then have "2 ^ 53 \<le> n" by (simp only: of_int_le_iff)
    with n53 have "n = 2 ^ 53" by simp
    with d True have "roundDouble x = of_int (2 ^ 52) / 2 ^ 53" by simp
    then show ?thesis by blast
  next
    case False
    with k54 have nn: "0 \<le> k + 53" by simp
    have "(2 powi k :: real) = 2 powi (k + 53) * 2 powi (- 53)"
      using pow2_split [of "k + 53" k] by (simp add: power_int_add)
    also have "\<dots> = of_int (2 ^ nat (k + 53)) / 2 ^ 53"
      using nn by (simp add: pow2_nonneg_int)
    finally have "roundDouble x = of_int (n * 2 ^ nat (k + 53)) / 2 ^ 53"
      using d by simp
    then show ?thesis by blast
  qed
qed

section \<open>The mock distance and the confidence, in doubles\<close>

lemma roundDouble_of_int: "\<bar>n\<bar> \<le> 2 ^ 53 \<Longrightarrow> roundDouble (of_int n) = of_int n"
  using roundDouble_rep [of 0 n] by simp

lemma roundDouble_small_numerals:
  "roundDouble 0 = 0" "roundDouble 1 = 1" "roundDouble 2 = 2" "roundDouble 50 = 50"
  "roundDouble 100 = 100"
  using roundDouble_of_int [of 0] roundDouble_of_int [of 1] roundDouble_of_int [of 2]
    roundDouble_of_int [of 50] roundDouble_of_int [of 100]
  by simp_all

lemma roundDouble_half: "roundDouble (1/2) = 1/2"
  using roundDouble_rep [of "- 1" 1] by simp

lemma roundDouble_lit08: "roundDouble lit08 = lit08"
  using roundDouble_rep [of "- 52" 3602879701896397] by (simp add: lit08_value)

lemma roundDouble_lit06: "roundDouble lit06 = lit06"
  using roundDouble_rep [of "- 53" 5404319552844595] by (simp add: lit06_value)

lemma mockDistance_range:
  assumes "0 \<le> u" "u < 1"
  shows "0 \<le> mockDistance u" and "mockDistance u \<le> lit08"
proof -
  have pos: "0 < lit08" by (simp add: lit08_value)
  have "0 \<le> u * lit08" using assms(1) pos by simp
  then show "0 \<le> mockDistance u"
    unfolding mockDistance_def by (rule roundDouble_nonneg)
  have "u * lit08 \<le> lit08" using assms pos by simp
  with \<open>0 \<le> u * lit08\<close> have "roundDouble (u * lit08) \<le> roundDouble lit08"
    by (rule roundDouble_mono)
  then show "mockDistance u \<le> lit08"
    by (simp add: mockDistance_def roundDouble_lit08)
qed

lemma confidence_antimono:
  assumes "d \<le> d'" "d' < 1"
  shows "roundDouble (roundDouble (1 - d') * 100) \<le> roundDouble (roundDouble (1 - d) * 100)"
proof -
  have "0 \<le> 1 - d'" "1 - d' \<le> 1 - d" using assms by simp_all
  then have le: "roundDouble (1 - d') \<le> roundDouble (1 - d)" by (rule roundDouble_mono)
  have "0 \<le> roundDouble (1 - d')" using \<open>0 \<le> 1 - d'\<close> by (rule roundDouble_nonneg)
  then have "0 \<le> roundDouble (1 - d') * 100" by simp
  moreover have "roundDouble (1 - d') * 100 \<le> roundDouble (1 - d) * 100" using le by simp
  ultimately show ?thesis by (rule roundDouble_mono)
qed

lemma confidence_le_100:
  assumes "0 \<le> d" "d < 1"
  shows "roundDouble (roundDouble (1 - d) * 100) \<le> 100"
  using confidence_antimono [of 0 d] assms
  by (simp add: roundDouble_small_numerals)

lemma confidence_edge:
  assumes "d \<le> 5404319552844594 / 9007199254740992"
  shows "40 < roundDouble (roundDouble (1 - d) * 100)"
proof -
  define e :: real where "e = 5404319552844594 / 9007199254740992"
  define a :: real where "a = 1 - e"
  have a_val: "a = of_int 3602879701896398 * 2 powi (- 53)"
    by (simp add: a_def e_def)
  have ra: "roundDouble a = a"
    unfolding a_val by (rule roundDouble_rep) simp_all
  have "roundDouble (a * 100) =
      of_int (roundEven (a * 100 / 2 powi (5 - 52))) * 2 powi (5 - 52)"
    by (rule roundDouble_eval) (simp_all add: a_def e_def)
  moreover have "roundEven (a * 100 / 2 powi (5 - 52)) = 5629499534213122"
    by (simp add: roundEven_def a_def e_def)
  ultimately have "roundDouble (a * 100) = of_int 5629499534213122 * 2 powi (5 - 52)"
    by (simp only:)
  then have "40 < roundDouble (roundDouble a * 100)" by (simp add: ra)
  moreover have "roundDouble (roundDouble (1 - e) * 100)
      \<le> roundDouble (roundDouble (1 - d) * 100)"
    using assms by (intro confidence_antimono) (simp_all add: e_def)
  ultimately show ?thesis by (simp add: a_def)
qed

lemma confidence_above_40:
  assumes "roundDouble x < lit06"
  shows "40 < roundDouble (roundDouble (1 - roundDouble x) * 100)"
proof (cases "roundDouble x < 1/2")
  case True
  then show ?thesis by (intro confidence_edge) simp
next
  case False
  then have low: "1/2 \<le> roundDouble x" by simp
  have up: "roundDouble x < 1" using assms by (simp add: lit06_value)
  from roundDouble_grid [OF low up] obtain n :: int
    where n: "roundDouble x = of_int n / 2 ^ 53" by blast
  with assms have "(of_int n :: real) < of_int 5404319552844595"
    by (simp add: lit06_value)
  then have "n < 5404319552844595" by (simp only: of_int_less_iff)
  then have "n \<le> 5404319552844594" by simp
  then have "(of_int n :: real) \<le> of_int 5404319552844594" by (simp only: of_int_le_iff)
  then have "roundDouble x \<le> 5404319552844594 / 9007199254740992" using n by simp
  then show ?thesis by (rule confidence_edge)
qed

text \<open>Some values of the distance.\<close>

lemma mockDistance_quarter: "mockDistance (1/4) = lit08 / 4"
  using roundDouble_rep [of "- 54" 3602879701896397] by (simp add: mockDistance_def lit08_value)

lemma mockDistance_half: "mockDistance (1/2) = lit08 / 2"
  using roundDouble_rep [of "- 53" 3602879701896397] by (simp add: mockDistance_def lit08_value)

lemma mockDistance_zero: "mockDistance 0 = 0"
  by (simp add: mockDistance_def roundDouble_small_numerals)

lemma mockDistance_far: "3/4 \<le> u \<Longrightarrow> \<not> mockDistance u < lit06"
proof -
  assume "3/4 \<le> u"
  then have "lit06 \<le> u * lit08" by (simp add: lit06_value lit08_value)
  moreover have "0 \<le> lit06" by (simp add: lit06_value)
  ultimately have "roundDouble lit06 \<le> roundDouble (u * lit08)"
    by (intro roundDouble_mono)
  then show ?thesis by (simp add: mockDistance_def roundDouble_lit06)
qed

text \<open>The largest double below 3/4 is a draw whose product with 0.8 rounds up to 0.6.\<close>

lemma mockDistance_edge: "mockDistance (6755399441055743 / 9007199254740992) = lit06"
proof -
  let ?x = "6755399441055743 / 9007199254740992 * lit08"
  have "roundDouble ?x = of_int (roundEven (?x / 2 powi (- 1 - 52))) * 2 powi (- 1 - 52)"
    by (rule roundDouble_eval) (simp_all add: lit08_value)
  also have "roundEven (?x / 2 powi (- 1 - 52)) = 5404319552844595"
    by (simp add: roundEven_def lit08_value)
  finally show ?thesis by (simp add: mockDistance_def lit06_value)
qed

lemma confidence_quarter: "roundDouble (roundDouble (1 - lit08 / 4) * 100) = 80"
proof -
  define x :: real where "x = 1 - lit08 / 4"
  have "roundDouble x = of_int (roundEven (x / 2 powi (- 1 - 52))) * 2 powi (- 1 - 52)"
    by (rule roundDouble_eval) (simp_all add: x_def lit08_value)
  moreover have "roundEven (x / 2 powi (- 1 - 52)) = 7205759403792794"
    by (simp add: roundEven_def x_def lit08_value)
  ultimately have "roundDouble x = of_int 7205759403792794 * 2 powi (- 1 - 52)"
    by (simp only:)
  then have a: "roundDouble x = lit08" by (simp add: lit08_value)
  define y :: real where "y = lit08 * 100"
  have "roundDouble y = of_int (roundEven (y / 2 powi (6 - 52))) * 2 powi (6 - 52)"
    by (rule roundDouble_eval) (simp_all add: y_def lit08_value)
  moreover have "roundEven (y / 2 powi (6 - 52)) = 5629499534213120"
    by (simp add: roundEven_def y_def lit08_value)
  ultimately have "roundDouble y = of_int 5629499534213120 * 2 powi (6 - 52)"
    by (simp only:)
  then have "roundDouble y = 80" by simp
  then show ?thesis using a by (simp add: x_def y_def)
qed

text \<open>
  A double is evaluated from the binade it lies in: the exponent, the rounded
  significand, and the value they give.
\<close>

lemma roundDouble_evalI:
  assumes "2 powi e \<le> \<bar>x\<bar>" "\<bar>x\<bar> < 2 powi (e + 1)" "- 1022 \<le> e"
    and "roundEven (x / 2 powi (e - 52)) = n"
    and "of_int n * 2 powi (e - 52) = v"
  shows "roundDouble x = v"
  using roundDouble_eval [OF assms(1-3)] assms(4,5) by simp

lemma lit_order: "lit08 / 4 < lit06" "lit08 / 2 < lit06" "lit08 / 4 < lit08 / 2" "lit06 < 1"
  by (simp_all add: lit08_value lit06_value)

lemma mockDistance_is_double: "roundDouble (mockDistance u) = mockDistance u"
  by (simp add: mockDistance_def roundDouble_idem)

text \<open>
  The draws 0.875 and 0.9375 give the distances 0.7000000000000001 and 0.75.
\<close>

lemma mockDistance_seven_eighths: "mockDistance (7/8) = 6305039478318695 / 9007199254740992"
  unfolding mockDistance_def
  by (rule roundDouble_evalI [where e = "- 1" and n = 6305039478318695])
    (simp_all add: roundEven_def lit08_value)

lemma mockDistance_fifteen_sixteenths: "mockDistance (15/16) = 3/4"
  unfolding mockDistance_def
  by (rule roundDouble_evalI [where e = "- 1" and n = 6755399441055744])
    (simp_all add: roundEven_def lit08_value)

text \<open>
  Two different draws, 0.7000000000000005 and 0.7000000000000004, whose distances are
  the same double 0.5600000000000004.
\<close>

lemma mockDistance_collide:
  "mockDistance (6305039478318699 / 9007199254740992) = 5044031582654959 / 9007199254740992"
  "mockDistance (3152519739159349 / 4503599627370496) = 5044031582654959 / 9007199254740992"
  unfolding mockDistance_def
  by (rule roundDouble_evalI [where e = "- 1" and n = 5044031582654959];
      simp add: roundEven_def lit08_value)+


text \<open>
  The draws 0.3999999999999999 and 0.40000000000000013 give the distances
  0.31999999999999995 and 0.3200000000000001, and both distances give the confidence 68.
\<close>

lemma mockDistance_tie_values:
  "mockDistance (900719925474099 / 2251799813685248) = 2882303761517117 / 9007199254740992"
  "mockDistance (1801439850948199 / 4503599627370496) = 5764607523034237 / 18014398509481984"
proof -
  show "mockDistance (900719925474099 / 2251799813685248) = 2882303761517117 / 9007199254740992"
    unfolding mockDistance_def
    by (rule roundDouble_evalI [where e = "- 2" and n = 5764607523034234])
      (simp_all add: roundEven_def lit08_value)
  show "mockDistance (1801439850948199 / 4503599627370496)
      = 5764607523034237 / 18014398509481984"
    unfolding mockDistance_def
    by (rule roundDouble_evalI [where e = "- 2" and n = 5764607523034237])
      (simp_all add: roundEven_def lit08_value)
qed

lemma confidence_tie_values:
  "roundDouble (roundDouble (1 - 2882303761517117 / 9007199254740992) * 100) = 68"
  "roundDouble (roundDouble (1 - 5764607523034237 / 18014398509481984) * 100) = 68"
proof -
  have a1: "roundDouble (1 - 2882303761517117 / 9007199254740992)
      = 6124895493223875 / 9007199254740992"
    by (rule roundDouble_evalI [where e = "- 1" and n = 6124895493223875])
      (simp_all add: roundEven_def)
  have a2: "roundDouble (1 - 5764607523034237 / 18014398509481984)
      = 3062447746611937 / 4503599627370496"
    by (rule roundDouble_evalI [where e = "- 1" and n = 6124895493223874])
      (simp_all add: roundEven_def)
  have c1: "roundDouble (6124895493223875 / 9007199254740992 * 100) = 68"
    by (rule roundDouble_evalI [where e = 6 and n = 4785074604081152])
      (simp_all add: roundEven_def)
  have c2: "roundDouble (3062447746611937 / 4503599627370496 * 100) = 68"
    by (rule roundDouble_evalI [where e = 6 and n = 4785074604081152])
      (simp_all add: roundEven_def)
  show "roundDouble (roundDouble (1 - 2882303761517117 / 9007199254740992) * 100) = 68"
    by (simp only: a1 c1)
  show "roundDouble (roundDouble (1 - 5764607523034237 / 18014398509481984) * 100) = 68"
    by (simp only: a2 c2)
qed

section \<open>The inner loop\<close>

lemma sampleDraws_range:
  "list_all (\<lambda>u. 0 \<le> u \<and> u < 1) us \<Longrightarrow> 0 \<le> sampleDraws us n \<and> sampleDraws us n < 1"
  by (simp add: sampleDraws_def list_all_length)

text \<open>The loop ends without a match exactly when it started without one and no draw
  fell below the double 0.6.\<close>

lemma bestMatchLoop_None_iff:
  "bestMatchLoop rnd faces k best = None \<longleftrightarrow>
     best = None \<and> (\<forall>i<length faces. \<not> mockDistance (rnd (k + i)) < lit06)"
  by (induction faces arbitrary: k best) (auto simp: All_less_Suc2 Let_def)

text \<open>
  When the loop ends with a match, either it is the one it started with and no later
  face beat it, or it is the first face whose distance is the least of all.
\<close>

lemma bestMatchLoop_Some:
  "bestMatchLoop rnd faces k best = Some b \<Longrightarrow>
     (best = Some b \<and>
        (\<forall>i<length faces. \<not> (mockDistance (rnd (k + i)) < lit06 \<and> mockDistance (rnd (k + i)) < distance b)))
     \<or> (\<exists>i<length faces.
          b = \<lparr>match_name = reg_name (faces ! i), distance = mockDistance (rnd (k + i))\<rparr> \<and>
          mockDistance (rnd (k + i)) < lit06 \<and>
          (case best of None \<Rightarrow> True | Some b0 \<Rightarrow> mockDistance (rnd (k + i)) < distance b0) \<and>
          (\<forall>j<i. mockDistance (rnd (k + i)) < mockDistance (rnd (k + j))) \<and>
          (\<forall>j<length faces. mockDistance (rnd (k + i)) \<le> mockDistance (rnd (k + j))))"
proof (induction faces arbitrary: k best)
  case Nil
  then show ?case by simp
next
  case (Cons f fs)
  let ?d = "mockDistance (rnd k)"
  let ?upd = "?d < lit06 \<and> (case best of None \<Rightarrow> True | Some b0 \<Rightarrow> ?d < distance b0)"
  let ?best' = "if ?upd then Some \<lparr>match_name = reg_name f, distance = ?d\<rparr> else best"
  from Cons.prems have run: "bestMatchLoop rnd fs (Suc k) ?best' = Some b"
    by (simp add: Let_def)
  from Cons.IH [OF run] show ?case
  proof (elim disjE conjE exE)
    assume keep: "?best' = Some b"
      and rest: "\<forall>i<length fs. \<not> (mockDistance (rnd (Suc k + i)) < lit06 \<and> mockDistance (rnd (Suc k + i)) < distance b)"
    show ?thesis
    proof (cases ?upd)
      case True
      with keep have b: "b = \<lparr>match_name = reg_name f, distance = ?d\<rparr>"
        by (simp split: if_splits)
      have "\<forall>j<length (f # fs). ?d \<le> mockDistance (rnd (k + j))"
        using rest True b by (auto simp: All_less_Suc2 not_less)
      with True b show ?thesis
        by (intro disjI2 exI [of _ 0]) (auto split: option.splits)
    next
      case False
      with keep have "best = Some b" by (simp split: if_splits)
      with False rest show ?thesis
        by (auto simp: All_less_Suc2)
    qed
  next
    fix i
    assume i: "i < length fs"
      and b: "b = \<lparr>match_name = reg_name (fs ! i), distance = mockDistance (rnd (Suc k + i))\<rparr>"
      and lt: "mockDistance (rnd (Suc k + i)) < lit06"
      and better: "case ?best' of None \<Rightarrow> True | Some b0 \<Rightarrow> mockDistance (rnd (Suc k + i)) < distance b0"
      and first: "\<forall>j<i. mockDistance (rnd (Suc k + i)) < mockDistance (rnd (Suc k + j))"
      and least: "\<forall>j<length fs. mockDistance (rnd (Suc k + i)) \<le> mockDistance (rnd (Suc k + j))"
    let ?e = "mockDistance (rnd (Suc k + i))"
    have e_d: "?e < ?d"
      using better lt by (cases ?upd; cases best) (auto split: if_splits)
    have e_best: "case best of None \<Rightarrow> True | Some b0 \<Rightarrow> ?e < distance b0"
      using better e_d by (cases ?upd; cases best) (auto split: if_splits)
    have "\<forall>j<Suc i. ?e < mockDistance (rnd (k + j))"
      using first e_d by (simp add: All_less_Suc2)
    moreover have "\<forall>j<length (f # fs). ?e \<le> mockDistance (rnd (k + j))"
      using least e_d by (simp add: All_less_Suc2)
    ultimately show ?thesis
      using i b lt e_best by (intro disjI2 exI [of _ "Suc i"]) (auto split: option.splits)
  qed
qed

lemma bestMatchLoop_first_min:
  assumes "bestMatchLoop rnd faces k None = Some b"
  shows "\<exists>i<length faces.
          b = \<lparr>match_name = reg_name (faces ! i), distance = mockDistance (rnd (k + i))\<rparr> \<and>
          mockDistance (rnd (k + i)) < lit06 \<and>
          (\<forall>j<i. mockDistance (rnd (k + i)) < mockDistance (rnd (k + j))) \<and>
          (\<forall>j<length faces. mockDistance (rnd (k + i)) \<le> mockDistance (rnd (k + j)))"
  using bestMatchLoop_Some [OF assms] by auto

section \<open>The outer loop\<close>

lemma recognise_length: "length (recognise rnd clk faces dets k c) = length dets"
  by (induction dets arbitrary: k c) (simp_all add: Let_def)

text \<open>
  The \<open>j\<close>-th result of a frame: with \<open>n\<close> registered faces the comparison of detection
  \<open>j\<close> starts at draw \<open>j * (n + 1)\<close>, and the draw after its \<open>n\<close> comparisons is its id.
\<close>

lemma recognise_nth:
  "j < length dets \<Longrightarrow>
   recognise rnd clk faces dets k c ! j =
     \<lparr>result_id = rnd (k + j * Suc (length faces) + length faces),
      result_name = nameOf (bestMatchLoop rnd faces (k + j * Suc (length faces)) None),
      confidence = confidenceOf (bestMatchLoop rnd faces (k + j * Suc (length faces)) None),
      box = det_box (dets ! j),
      timestamp = clk (c + j)\<rparr>"
proof (induction dets arbitrary: k c j)
  case Nil
  then show ?case by simp
next
  case (Cons d ds)
  show ?case
  proof (cases j)
    case 0
    then show ?thesis by (simp add: Let_def)
  next
    case (Suc j')
    with Cons.prems have j': "j' < length ds" by simp
    have e1: "Suc (k + length faces) + j' * Suc (length faces) = k + Suc j' * Suc (length faces)"
      by simp
    have e2: "Suc c + j' = c + Suc j'" by simp
    from Cons.IH [OF j', of "Suc (k + length faces)" "Suc c"]
    have "recognise rnd clk faces ds (Suc (k + length faces)) (Suc c) ! j' =
       \<lparr>result_id = rnd (k + Suc j' * Suc (length faces) + length faces),
        result_name = nameOf (bestMatchLoop rnd faces (k + Suc j' * Suc (length faces)) None),
        confidence = confidenceOf (bestMatchLoop rnd faces (k + Suc j' * Suc (length faces)) None),
        box = det_box (ds ! j'),
        timestamp = clk (c + Suc j')\<rparr>"
      unfolding e1 e2 .
    then show ?thesis using Suc by (simp add: Let_def)
  qed
qed

lemma frameResults_nth:
  "j < length dets \<Longrightarrow>
   frameResults rnd clk faces dets ! j =
     \<lparr>result_id = rnd (j * Suc (length faces) + length faces),
      result_name = nameOf (bestMatchLoop rnd faces (j * Suc (length faces)) None),
      confidence = confidenceOf (bestMatchLoop rnd faces (j * Suc (length faces)) None),
      box = det_box (dets ! j),
      timestamp = clk j\<rparr>"
  using recognise_nth [of j dets rnd clk faces 0 0] by (simp add: frameResults_def)

lemma frameResults_length: "length (frameResults rnd clk faces dets) = length dets"
  by (simp add: frameResults_def recognise_length)



lemma bestMatchLoop_single:
  "bestMatchLoop rnd [f] k None =
     (if mockDistance (rnd k) < lit06
      then Some \<lparr>match_name = reg_name f, distance = mockDistance (rnd k)\<rparr> else None)"
  by (simp add: Let_def)


lemma matched_distance_facts:
  assumes b: "bestMatchLoop rnd faces k None = Some b"
  shows "\<exists>i<length faces. distance b = mockDistance (rnd (k + i)) \<and> match_name b = reg_name (faces ! i)"
    and "distance b < lit06"
  using bestMatchLoop_first_min [OF b] by auto

text \<open>
  A match has a distance below the double 0.6, and the largest double below it still
  gives a confidence above 40 (40.000000000000014).
\<close>

lemma confidenceOf_bounds:
  assumes range: "\<forall>n. 0 \<le> rnd n \<and> rnd n < 1"
    and b: "bestMatchLoop rnd faces k None = Some b"
  shows "40 < confidenceOf (Some b)" and "confidenceOf (Some b) \<le> 100"
proof -
  from matched_distance_facts [OF b] obtain i
    where d: "distance b = mockDistance (rnd (k + i))" and lt: "distance b < lit06"
    by auto
  have "40 < roundDouble (roundDouble (1 - roundDouble (rnd (k + i) * lit08)) * 100)"
    using lt d by (intro confidence_above_40) (simp add: mockDistance_def)
  then show "40 < confidenceOf (Some b)"
    by (simp add: confidenceOf_def d mockDistance_def)
  have "0 \<le> distance b"
    unfolding d using range by (intro mockDistance_range(1)) auto
  moreover have "distance b < 1" using lt lit_order(4) by simp
  ultimately show "confidenceOf (Some b) \<le> 100"
    by (simp add: confidenceOf_def confidence_le_100)
qed

lemma matched_confidence_above_40:
  assumes b: "bestMatchLoop rnd faces k None = Some b"
  shows "40 < confidenceOf (Some b)"
proof -
  from matched_distance_facts [OF b] obtain i
    where d: "distance b = mockDistance (rnd (k + i))" and lt: "distance b < lit06"
    by auto
  have "40 < roundDouble (roundDouble (1 - roundDouble (rnd (k + i) * lit08)) * 100)"
    using lt d by (intro confidence_above_40) (simp add: mockDistance_def)
  then show ?thesis
    by (simp add: confidenceOf_def d mockDistance_def)
qed

section \<open>Unknown faces and the confidence of a match\<close>

text \<open>
  Claim C10.  The distance of a registered face is the double the code computed for
  it, and the threshold is the double 0.6.  For every detection of a frame: if no
  registered face has a distance below 0.6, the result is named \<open>Unknown Person\<close> and
  its confidence is 0; if some registered face has, then the result carries the name
  of a registered face whose distance is below 0.6, its confidence is the double
  \<open>(1 - distance) * 100\<close> of that distance, and this confidence is above 40 and at
  most 100.
\<close>

theorem unknown_or_above_forty:
  assumes range: "\<forall>n. 0 \<le> rnd n \<and> rnd n < 1"
    and j: "j < length dets"
  shows "((\<forall>i<length faces. \<not> mockDistance (rnd (j * Suc (length faces) + i)) < lit06) \<longrightarrow>
            result_name (frameResults rnd clk faces dets ! j) = ''Unknown Person'' \<and>
            confidence (frameResults rnd clk faces dets ! j) = 0) \<and>
         ((\<exists>i<length faces. mockDistance (rnd (j * Suc (length faces) + i)) < lit06) \<longrightarrow>
            (\<exists>i<length faces.
               mockDistance (rnd (j * Suc (length faces) + i)) < lit06 \<and>
               result_name (frameResults rnd clk faces dets ! j) = reg_name (faces ! i) \<and>
               confidence (frameResults rnd clk faces dets ! j) =
                 roundDouble
                   (roundDouble (1 - mockDistance (rnd (j * Suc (length faces) + i))) * 100)) \<and>
            40 < confidence (frameResults rnd clk faces dets ! j) \<and>
            confidence (frameResults rnd clk faces dets ! j) \<le> 100) \<and>
         lit06 = 5404319552844595 / 9007199254740992"
proof (intro conjI impI)
  let ?k = "j * Suc (length faces)"
  let ?r = "frameResults rnd clk faces dets ! j"
  have r: "result_name ?r = nameOf (bestMatchLoop rnd faces ?k None)"
          "confidence ?r = confidenceOf (bestMatchLoop rnd faces ?k None)"
    using frameResults_nth [OF j, of rnd clk faces] by simp_all
  show "lit06 = 5404319552844595 / 9007199254740992" by (rule lit06_value)
  {
    assume "\<forall>i<length faces. \<not> mockDistance (rnd (?k + i)) < lit06"
    then have none: "bestMatchLoop rnd faces ?k None = None"
      by (simp add: bestMatchLoop_None_iff)
    show "result_name ?r = ''Unknown Person''"
      using r none by (simp add: nameOf_def)
    show "confidence ?r = 0"
      using r none by (simp add: confidenceOf_def)
  }
  assume some: "\<exists>i<length faces. mockDistance (rnd (?k + i)) < lit06"
  then have "bestMatchLoop rnd faces ?k None \<noteq> None"
    by (simp add: bestMatchLoop_None_iff)
  then obtain b where b: "bestMatchLoop rnd faces ?k None = Some b" by auto
  from bestMatchLoop_first_min [OF b] obtain i where i: "i < length faces"
    and bi: "b = \<lparr>match_name = reg_name (faces ! i), distance = mockDistance (rnd (?k + i))\<rparr>"
    and lt: "mockDistance (rnd (?k + i)) < lit06"
    by blast
  have conf: "confidence ?r =
      roundDouble (roundDouble (1 - mockDistance (rnd (?k + i))) * 100)"
    using r b bi by (simp add: confidenceOf_def)
  have name: "result_name ?r = reg_name (faces ! i)"
    using r b bi by (simp add: nameOf_def)
  show "\<exists>i<length faces. mockDistance (rnd (?k + i)) < lit06 \<and>
          result_name ?r = reg_name (faces ! i) \<and>
          confidence ?r = roundDouble (roundDouble (1 - mockDistance (rnd (?k + i))) * 100)"
    using i lt conf name by blast
  show "40 < confidence ?r"
    using confidenceOf_bounds(1) [OF range b] r b by simp
  show "confidence ?r \<le> 100"
    using confidenceOf_bounds(2) [OF range b] r b by simp
qed

text \<open>
  The draw 0.7499999999999999, whose product with 0.8 is the double 0.6 and so not below
  it, gives \<open>Unknown Person\<close> with confidence 0; the draw 0.25 gives Alice with
  confidence 80.
\<close>

theorem unknown_or_above_forty_witness:
  "result_name (frameResults (sampleDraws [6755399441055743 / 9007199254740992, 3/8])
       (sampleClock [5]) [alice] [face0] ! 0) = ''Unknown Person'' \<and>
   confidence (frameResults (sampleDraws [6755399441055743 / 9007199254740992, 3/8])
       (sampleClock [5]) [alice] [face0] ! 0) = 0 \<and>
   result_name (frameResults (sampleDraws [1/4, 3/8]) (sampleClock [5]) [alice] [face0] ! 0)
     = ''Alice'' \<and>
   confidence (frameResults (sampleDraws [1/4, 3/8]) (sampleClock [5]) [alice] [face0] ! 0) = 80 \<and>
   40 < confidence (frameResults (sampleDraws [1/4, 3/8]) (sampleClock [5]) [alice] [face0] ! 0) \<and>
   confidence (frameResults (sampleDraws [1/4, 3/8]) (sampleClock [5]) [alice] [face0] ! 0) \<le> 100"
proof -
  have r1: "\<forall>n. 0 \<le> sampleDraws [6755399441055743 / 9007199254740992, 3/8] n \<and>
      sampleDraws [6755399441055743 / 9007199254740992, 3/8] n < 1"
    by (intro allI sampleDraws_range) simp
  have r2: "\<forall>n. 0 \<le> sampleDraws [1/4, 3/8] n \<and> sampleDraws [1/4, 3/8] n < 1"
    by (intro allI sampleDraws_range) simp
  have j: "0 < length [face0]" by simp
  have d1: "mockDistance (sampleDraws [6755399441055743 / 9007199254740992, 3/8] 0) = lit06"
    by (simp add: sampleDraws_def mockDistance_edge)
  have d2: "mockDistance (sampleDraws [1/4, 3/8] 0) = lit08 / 4"
    by (simp add: sampleDraws_def mockDistance_quarter)
  have name: "reg_name alice = ''Alice''" by (simp add: alice_def)
  show ?thesis
    using unknown_or_above_forty [OF r1 j, of "[alice]" "sampleClock [5]"]
      unknown_or_above_forty [OF r2 j, of "[alice]" "sampleClock [5]"] lit_order
    by (simp add: d1 d2 confidence_quarter name)
qed

section \<open>The distance between a detection and a registered face\<close>




section \<open>When a detection stays unmatched\<close>

text \<open>
  Claim C2, as the code has it.  For detection \<open>j\<close> of a frame, \<open>bestMatch\<close> stays
  \<open>null\<close> exactly when no registered face has a distance below 0.6, and exactly then
  the confidence of the result is 0; in that case the result is named
  \<open>Unknown Person\<close>.  The threshold is the literal \<open>0.6\<close> of the source, the double
  \<open>5404319552844595 / 2^53\<close>: \<open>processFrame\<close> reads no configured value.
\<close>

theorem unmatched_iff_no_distance_below_constant:
  assumes j: "j < length dets"
  shows "(bestMatchLoop rnd faces (j * Suc (length faces)) None = None \<longleftrightarrow>
            (\<forall>i<length faces. \<not> mockDistance (rnd (j * Suc (length faces) + i)) < lit06)) \<and>
         (confidence (frameResults rnd clk faces dets ! j) = 0 \<longleftrightarrow>
            (\<forall>i<length faces. \<not> mockDistance (rnd (j * Suc (length faces) + i)) < lit06)) \<and>
         ((\<forall>i<length faces. \<not> mockDistance (rnd (j * Suc (length faces) + i)) < lit06) \<longrightarrow>
            result_name (frameResults rnd clk faces dets ! j) = ''Unknown Person'') \<and>
         lit06 = 5404319552844595 / 9007199254740992"
proof -
  let ?k = "j * Suc (length faces)"
  let ?best = "bestMatchLoop rnd faces ?k None"
  let ?r = "frameResults rnd clk faces dets ! j"
  have r: "result_name ?r = nameOf ?best" "confidence ?r = confidenceOf ?best"
    using frameResults_nth [OF j, of rnd clk faces] by simp_all
  have none: "?best = None \<longleftrightarrow> (\<forall>i<length faces. \<not> mockDistance (rnd (?k + i)) < lit06)"
    by (simp add: bestMatchLoop_None_iff)
  have zero: "confidenceOf ?best = 0 \<longleftrightarrow> ?best = None"
  proof (cases ?best)
    case None
    then show ?thesis by (simp add: confidenceOf_def)
  next
    case (Some b)
    from matched_confidence_above_40 [OF Some] Some show ?thesis by simp
  qed
  have name: "?best = None \<longrightarrow> result_name ?r = ''Unknown Person''"
    using r by (simp add: nameOf_def)
  from none zero name r lit06_value show ?thesis by simp
qed

theorem unmatched_iff_no_distance_below_constant_witness:
  "bestMatchLoop (sampleDraws [7/8, 3/8]) [alice] 0 None = None \<and>
   confidence (frameResults (sampleDraws [7/8, 3/8]) (sampleClock [5]) [alice] [face0] ! 0) = 0 \<and>
   result_name (frameResults (sampleDraws [7/8, 3/8]) (sampleClock [5]) [alice] [face0] ! 0)
     = ''Unknown Person''"
proof -
  have j: "0 < length [face0]" by simp
  have d: "\<not> mockDistance (sampleDraws [7/8, 3/8] 0) < lit06"
    by (simp add: sampleDraws_def mockDistance_far)
  show ?thesis
    using unmatched_iff_no_distance_below_constant
      [OF j, of "sampleDraws [7/8, 3/8]" "[alice]" "sampleClock [5]"] d
    by simp
qed

text \<open>
  Claim C2 as stated fails for the identity the result reports.  A person is registered
  under the name \<open>Unknown Person\<close>; the draw 0.25 puts this face at distance 0.2, below
  the threshold, and \<open>bestMatch\<close> is this face.  The result is named
  \<open>Unknown Person\<close>, which is how the code marks a result without a match, and the
  count of matched results of the frame is 0.
\<close>

theorem matched_yet_named_unknown:
  "mockDistance (sampleDraws [1/4, 3/8] 0) < lit06 \<and>
   bestMatchLoop (sampleDraws [1/4, 3/8]) [nobody] 0 None
     = Some \<lparr>match_name = ''Unknown Person'', distance = lit08 / 4\<rparr> \<and>
   result_name (frameResults (sampleDraws [1/4, 3/8]) (sampleClock [5]) [nobody] [face0] ! 0)
     = ''Unknown Person'' \<and>
   matchedCount (frameResults (sampleDraws [1/4, 3/8]) (sampleClock [5]) [nobody] [face0]) = 0"
proof -
  have d: "mockDistance (sampleDraws [1/4, 3/8] 0) = lit08 / 4"
    by (simp add: sampleDraws_def mockDistance_quarter)
  have lt: "mockDistance (sampleDraws [1/4, 3/8] 0) < lit06"
    unfolding d by (rule lit_order)
  have best: "bestMatchLoop (sampleDraws [1/4, 3/8]) [nobody] 0 None
     = Some \<lparr>match_name = ''Unknown Person'', distance = lit08 / 4\<rparr>"
    using lt by (simp add: bestMatchLoop_single d nobody_def)
  have res: "frameResults (sampleDraws [1/4, 3/8]) (sampleClock [5]) [nobody] [face0] =
      [\<lparr>result_id = sampleDraws [1/4, 3/8] 1, result_name = ''Unknown Person'',
        confidence = confidenceOf (Some \<lparr>match_name = ''Unknown Person'', distance = lit08 / 4\<rparr>),
        box = det_box face0, timestamp = sampleClock [5] 0\<rparr>]"
    by (simp add: frameResults_def best nameOf_def del: bestMatchLoop.simps)
  show ?thesis
    using lt best by (simp add: res matchedCount_def)
qed

section \<open>Confidence as a function of the distance\<close>

text \<open>
  Claim C3, as the code has it.  For a match the confidence is the double
  \<open>(1 - distance) * 100\<close>; this is the clamped formula of the specification with
  \<open>distance_max = 1\<close>, where the clamp never acts, since the value is above 40 and at
  most 100.  Of two matches the one at the larger distance never has the larger
  confidence.  Without a match the confidence is 0.
\<close>

theorem matched_confidence_not_increasing:
  assumes range: "\<forall>n. 0 \<le> rnd n \<and> rnd n < 1"
    and b: "bestMatchLoop rnd faces k None = Some b"
    and b': "bestMatchLoop rnd' faces' k' None = Some b'"
  shows "confidenceOf (Some b) = roundDouble (roundDouble (1 - distance b) * 100) \<and>
         confidenceOf (Some b) = clampConfidence 1 (distance b) \<and>
         40 < confidenceOf (Some b) \<and> confidenceOf (Some b) \<le> 100 \<and>
         (distance b \<le> distance b' \<longrightarrow> confidenceOf (Some b') \<le> confidenceOf (Some b)) \<and>
         confidenceOf None = 0"
proof -
  from matched_distance_facts [OF b] obtain i
    where d: "distance b = mockDistance (rnd (k + i))" by auto
  have lt': "distance b' < 1"
    using matched_distance_facts(2) [OF b'] lit_order(4) by simp
  have low: "40 < confidenceOf (Some b)" and up: "confidenceOf (Some b) \<le> 100"
    using confidenceOf_bounds [OF range b] by simp_all
  have "roundDouble (distance b) = distance b"
    unfolding d by (rule mockDistance_is_double)
  then have clamp: "confidenceOf (Some b) = clampConfidence 1 (distance b)"
    using low up by (simp add: confidenceOf_def clampConfidence_def)
  have mono: "confidenceOf (Some b') \<le> confidenceOf (Some b)" if "distance b \<le> distance b'"
    using that lt' by (simp add: confidenceOf_def confidence_antimono)
  show ?thesis
    using low up clamp mono by (simp add: confidenceOf_def)
qed

theorem matched_confidence_not_increasing_witness:
  "bestMatchLoop (sampleDraws [1/4]) [alice] 0 None
     = Some \<lparr>match_name = ''Alice'', distance = lit08 / 4\<rparr> \<and>
   bestMatchLoop (sampleDraws [1/2]) [bob] 0 None
     = Some \<lparr>match_name = ''Bob'', distance = lit08 / 2\<rparr> \<and>
   confidenceOf (Some \<lparr>match_name = ''Alice'', distance = lit08 / 4\<rparr>) = 80 \<and>
   confidenceOf (Some \<lparr>match_name = ''Bob'', distance = lit08 / 2\<rparr>)
     \<le> confidenceOf (Some \<lparr>match_name = ''Alice'', distance = lit08 / 4\<rparr>) \<and>
   clampConfidence 1 (lit08 / 4) = 80"
proof -
  have r: "\<forall>n. 0 \<le> sampleDraws [1/4] n \<and> sampleDraws [1/4] n < 1"
    by (intro allI sampleDraws_range) simp
  have b: "bestMatchLoop (sampleDraws [1/4]) [alice] 0 None
             = Some \<lparr>match_name = ''Alice'', distance = lit08 / 4\<rparr>"
    using lit_order(1)
    by (simp add: bestMatchLoop_single sampleDraws_def mockDistance_quarter alice_def)
  have b': "bestMatchLoop (sampleDraws [1/2]) [bob] 0 None
             = Some \<lparr>match_name = ''Bob'', distance = lit08 / 2\<rparr>"
    using lit_order(2)
    by (simp add: bestMatchLoop_single sampleDraws_def mockDistance_half bob_def)
  have c: "confidenceOf (Some \<lparr>match_name = ''Alice'', distance = lit08 / 4\<rparr>) = 80"
    by (simp add: confidenceOf_def confidence_quarter)
  have le: "lit08 / 4 \<le> lit08 / 2" using lit_order(3) by simp
  from matched_confidence_not_increasing [OF r b b'] le c b b'
  show ?thesis by simp
qed

text \<open>
  Claim C3 as stated fails twice.  Among matches: the distances 0.31999999999999995 and
  0.3200000000000001, one below the other, both have confidence 68.  Without a match:
  the distances 0.7000000000000001 and 0.75 both have confidence 0, where the formula
  gives at least 25 for the first.
\<close>

theorem confidence_not_strictly_decreasing:
  "bestMatchLoop (sampleDraws [900719925474099 / 2251799813685248]) [alice] 0 None
     = Some \<lparr>match_name = ''Alice'', distance = 2882303761517117 / 9007199254740992\<rparr> \<and>
   bestMatchLoop (sampleDraws [1801439850948199 / 4503599627370496]) [alice] 0 None
     = Some \<lparr>match_name = ''Alice'', distance = 5764607523034237 / 18014398509481984\<rparr> \<and>
   (2882303761517117 / 9007199254740992 :: real) < 5764607523034237 / 18014398509481984 \<and>
   confidenceOf (Some \<lparr>match_name = ''Alice'', distance = 2882303761517117 / 9007199254740992\<rparr>)
     = 68 \<and>
   confidenceOf (Some \<lparr>match_name = ''Alice'', distance = 5764607523034237 / 18014398509481984\<rparr>)
     = 68 \<and>
   mockDistance (sampleDraws [7/8, 3/8] 0) < mockDistance (sampleDraws [15/16, 3/8] 0) \<and>
   confidence (frameResults (sampleDraws [7/8, 3/8]) (sampleClock [5]) [alice] [face0] ! 0) = 0 \<and>
   confidence (frameResults (sampleDraws [15/16, 3/8]) (sampleClock [5]) [alice] [face0] ! 0) = 0 \<and>
   25 \<le> clampConfidence 1 (mockDistance (sampleDraws [7/8, 3/8] 0))"
proof -
  have t1: "mockDistance (sampleDraws [900719925474099 / 2251799813685248] 0)
      = 2882303761517117 / 9007199254740992"
    and t2: "mockDistance (sampleDraws [1801439850948199 / 4503599627370496] 0)
      = 5764607523034237 / 18014398509481984"
    by (simp_all add: sampleDraws_def mockDistance_tie_values)
  have lt1: "(2882303761517117 / 9007199254740992 :: real) < lit06"
    and lt2: "(5764607523034237 / 18014398509481984 :: real) < lit06"
    by (simp_all add: lit06_value)
  have b1: "bestMatchLoop (sampleDraws [900719925474099 / 2251799813685248]) [alice] 0 None
     = Some \<lparr>match_name = ''Alice'', distance = 2882303761517117 / 9007199254740992\<rparr>"
    using lt1 by (simp add: bestMatchLoop_single t1 alice_def)
  have b2: "bestMatchLoop (sampleDraws [1801439850948199 / 4503599627370496]) [alice] 0 None
     = Some \<lparr>match_name = ''Alice'', distance = 5764607523034237 / 18014398509481984\<rparr>"
    using lt2 by (simp add: bestMatchLoop_single t2 alice_def)
  have k1: "confidenceOf (Some \<lparr>match_name = ''Alice'',
      distance = 2882303761517117 / 9007199254740992\<rparr>) = 68"
    using confidence_tie_values(1) by (simp add: confidenceOf_def)
  have k2: "confidenceOf (Some \<lparr>match_name = ''Alice'',
      distance = 5764607523034237 / 18014398509481984\<rparr>) = 68"
    using confidence_tie_values(2) by (simp add: confidenceOf_def)
  have d1: "mockDistance (sampleDraws [7/8, 3/8] 0) = 6305039478318695 / 9007199254740992"
    by (simp add: sampleDraws_def mockDistance_seven_eighths)
  have d2: "mockDistance (sampleDraws [15/16, 3/8] 0) = 3/4"
    by (simp add: sampleDraws_def mockDistance_fifteen_sixteenths)
  have far1: "\<not> mockDistance (sampleDraws [7/8, 3/8] 0) < lit06"
    and far2: "\<not> mockDistance (sampleDraws [15/16, 3/8] 0) < lit06"
    by (simp_all add: sampleDraws_def mockDistance_far)
  have c1: "confidence (frameResults (sampleDraws [7/8, 3/8]) (sampleClock [5]) [alice] [face0] ! 0) = 0"
    using far1 by (simp add: frameResults_def bestMatchLoop_single confidenceOf_def
        del: bestMatchLoop.simps)
  have c2: "confidence (frameResults (sampleDraws [15/16, 3/8]) (sampleClock [5]) [alice] [face0] ! 0) = 0"
    using far2 by (simp add: frameResults_def bestMatchLoop_single confidenceOf_def
        del: bestMatchLoop.simps)
  let ?d = "mockDistance (sampleDraws [7/8, 3/8] 0)"
  have dbl: "roundDouble ?d = ?d" by (rule mockDistance_is_double)
  have q: "roundDouble (1/4) = 1/4"
    using roundDouble_rep [of "- 2" 1] by simp
  have t: "roundDouble 25 = 25" using roundDouble_of_int [of 25] by simp
  have "roundDouble (roundDouble (1 - 3/4) * 100) = 25" by (simp add: q t)
  moreover have "roundDouble (roundDouble (1 - 3/4) * 100)
      \<le> roundDouble (roundDouble (1 - ?d) * 100)"
    by (intro confidence_antimono) (simp_all add: d1)
  ultimately have low: "25 \<le> roundDouble (roundDouble (1 - ?d) * 100)" by (simp only:)
  have "roundDouble (roundDouble (1 - ?d) * 100) \<le> 100"
    by (intro confidence_le_100) (simp_all add: d1)
  with low have flat: "25 \<le> clampConfidence 1 ?d"
    by (simp add: clampConfidence_def dbl)
  have order: "(2882303761517117 / 9007199254740992 :: real) < 5764607523034237 / 18014398509481984"
    by simp
  have order2: "mockDistance (sampleDraws [7/8, 3/8] 0) < mockDistance (sampleDraws [15/16, 3/8] 0)"
    by (simp add: d1 d2)
  from b1 b2 order k1 k2 order2 c1 c2 flat show ?thesis by (intro conjI)
qed

section \<open>Which registered face is chosen\<close>

text \<open>
  Claim C4, as the code has it.  On an empty gallery \<open>bestMatch\<close> stays \<open>null\<close>, and
  no distance is reported.  On any gallery it stays \<open>null\<close> exactly when no face has a
  distance below 0.6.  Otherwise the match is a face \<open>i\<close> of the gallery with its own
  distance, which is below 0.6 and least over the gallery, and every face before \<open>i\<close>
  in the gallery has a strictly larger distance: of several faces at the least
  distance the first in gallery order is kept.  When the gallery is ordered newest
  first, as \<open>loadRegisteredFaces\<close> asks the database to, no face at the distance of
  the match was enrolled after the match.
\<close>

theorem bestMatch_is_first_least:
  "bestMatchLoop rnd [] k None = None \<and>
   (bestMatchLoop rnd faces k None = None \<longleftrightarrow>
      (\<forall>i<length faces. \<not> mockDistance (rnd (k + i)) < lit06)) \<and>
   (\<forall>b. bestMatchLoop rnd faces k None = Some b \<longrightarrow>
      (\<exists>i<length faces.
         b = \<lparr>match_name = reg_name (faces ! i), distance = mockDistance (rnd (k + i))\<rparr> \<and>
         mockDistance (rnd (k + i)) < lit06 \<and>
         (\<forall>j<length faces. mockDistance (rnd (k + i)) \<le> mockDistance (rnd (k + j))) \<and>
         (\<forall>j<i. mockDistance (rnd (k + i)) < mockDistance (rnd (k + j))) \<and>
         (newestFirst faces \<longrightarrow>
            (\<forall>j<length faces. mockDistance (rnd (k + j)) = mockDistance (rnd (k + i)) \<longrightarrow>
               created_at (faces ! j) \<le> created_at (faces ! i)))))"
proof (intro conjI allI impI)
  show "bestMatchLoop rnd [] k None = None" by simp
  show "bestMatchLoop rnd faces k None = None \<longleftrightarrow>
      (\<forall>i<length faces. \<not> mockDistance (rnd (k + i)) < lit06)"
    by (simp add: bestMatchLoop_None_iff)
  fix b
  assume "bestMatchLoop rnd faces k None = Some b"
  from bestMatchLoop_first_min [OF this] obtain i where i: "i < length faces"
    and bi: "b = \<lparr>match_name = reg_name (faces ! i), distance = mockDistance (rnd (k + i))\<rparr>"
    and lt: "mockDistance (rnd (k + i)) < lit06"
    and first: "\<forall>j<i. mockDistance (rnd (k + i)) < mockDistance (rnd (k + j))"
    and least: "\<forall>j<length faces. mockDistance (rnd (k + i)) \<le> mockDistance (rnd (k + j))"
    by blast
  have newest: "created_at (faces ! j) \<le> created_at (faces ! i)"
    if sorted: "newestFirst faces" and j: "j < length faces"
      and tie: "mockDistance (rnd (k + j)) = mockDistance (rnd (k + i))" for j
  proof -
    have "\<not> j < i" using first tie by auto
    then consider "j = i" | "i < j" by linarith
    then show ?thesis
    proof cases
      case 1
      then show ?thesis by simp
    next
      case 2
      with sorted j show ?thesis
        by (simp add: newestFirst_def sorted_wrt_iff_nth_less)
    qed
  qed
  show "\<exists>i<length faces.
         b = \<lparr>match_name = reg_name (faces ! i), distance = mockDistance (rnd (k + i))\<rparr> \<and>
         mockDistance (rnd (k + i)) < lit06 \<and>
         (\<forall>j<length faces. mockDistance (rnd (k + i)) \<le> mockDistance (rnd (k + j))) \<and>
         (\<forall>j<i. mockDistance (rnd (k + i)) < mockDistance (rnd (k + j))) \<and>
         (newestFirst faces \<longrightarrow>
            (\<forall>j<length faces. mockDistance (rnd (k + j)) = mockDistance (rnd (k + i)) \<longrightarrow>
               created_at (faces ! j) \<le> created_at (faces ! i)))"
    using i bi lt first least newest by blast
qed

text \<open>
  The draws 0.7000000000000005 and 0.7000000000000004 put Bob and Alice at the same
  distance 0.5600000000000004, and Bob, enrolled last and first in the gallery, is kept.
  The draws 0.875 and 0.9375 leave \<open>bestMatch\<close> \<open>null\<close>.
\<close>

theorem bestMatch_is_first_least_witness:
  "newestFirst [bob, alice] \<and>
   bestMatchLoop
     (sampleDraws [6305039478318699 / 9007199254740992, 3152519739159349 / 4503599627370496])
     [bob, alice] 0 None
     = Some \<lparr>match_name = ''Bob'', distance = 5044031582654959 / 9007199254740992\<rparr> \<and>
   (\<exists>i<length [bob, alice].
      reg_name ([bob, alice] ! i) = ''Bob'' \<and>
      created_at ([bob, alice] ! 1) \<le> created_at ([bob, alice] ! i)) \<and>
   bestMatchLoop (sampleDraws [7/8, 15/16]) [bob, alice] 0 None = None"
proof -
  let ?rnd = "sampleDraws [6305039478318699 / 9007199254740992, 3152519739159349 / 4503599627370496]"
  let ?v = "5044031582654959 / 9007199254740992 :: real"
  have d0: "mockDistance (?rnd 0) = ?v" and d1: "mockDistance (?rnd (Suc 0)) = ?v"
    by (simp_all add: sampleDraws_def mockDistance_collide)
  have v: "?v < lit06" by (simp add: lit06_value)
  have sorted: "newestFirst [bob, alice]"
    by (simp add: newestFirst_def alice_def bob_def)
  have tie: "bestMatchLoop ?rnd [bob, alice] 0 None = Some \<lparr>match_name = ''Bob'', distance = ?v\<rparr>"
    using v by (simp add: d0 d1 bob_def Let_def)
  from bestMatch_is_first_least [of ?rnd 0 "[bob, alice]"] tie sorted
  obtain i where i: "i < length [bob, alice]"
    and b: "\<lparr>match_name = ''Bob'', distance = ?v\<rparr> =
            \<lparr>match_name = reg_name ([bob, alice] ! i), distance = mockDistance (?rnd (0 + i))\<rparr>"
    and newest: "\<forall>j<length [bob, alice].
            mockDistance (?rnd (0 + j)) = mockDistance (?rnd (0 + i)) \<longrightarrow>
            created_at ([bob, alice] ! j) \<le> created_at ([bob, alice] ! i)"
    by blast
  from b have name: "reg_name ([bob, alice] ! i) = ''Bob''"
    and dist: "mockDistance (?rnd (0 + i)) = ?v"
    by simp_all
  have one: "1 < length [bob, alice]" by simp
  have "mockDistance (?rnd (0 + 1)) = ?v" using d1 by simp
  with dist have "mockDistance (?rnd (0 + 1)) = mockDistance (?rnd (0 + i))" by simp
  with newest [rule_format, OF one]
  have "created_at ([bob, alice] ! 1) \<le> created_at ([bob, alice] ! i)" .
  with i name have chosen: "\<exists>i<length [bob, alice].
      reg_name ([bob, alice] ! i) = ''Bob'' \<and>
      created_at ([bob, alice] ! 1) \<le> created_at ([bob, alice] ! i)"
    by blast
  have far: "\<not> mockDistance (sampleDraws [7/8, 15/16] 0) < lit06"
    "\<not> mockDistance (sampleDraws [7/8, 15/16] (Suc 0)) < lit06"
    by (simp_all add: sampleDraws_def mockDistance_far)
  have none: "bestMatchLoop (sampleDraws [7/8, 15/16]) [bob, alice] 0 None = None"
    using bestMatch_is_first_least [of "sampleDraws [7/8, 15/16]" 0 "[bob, alice]"] far
    by (simp add: All_less_Suc2)
  from sorted tie chosen none show ?thesis by blast
qed

text \<open>
  Claim C4 as stated fails on a tie.  Bob was enrolled after Alice, so the gallery is
  Bob, Alice; both are at distance 0.4; the loop answers Bob, not the earlier Alice.
\<close>

theorem tie_goes_to_later_enrolment:
  "newestFirst [bob, alice] \<and>
   created_at alice < created_at bob \<and>
   mockDistance (sampleDraws [1/2, 1/2] 0) = mockDistance (sampleDraws [1/2, 1/2] 1) \<and>
   bestMatchLoop (sampleDraws [1/2, 1/2]) [bob, alice] 0 None
     = Some \<lparr>match_name = ''Bob'', distance = lit08 / 2\<rparr>"
proof -
  have d: "mockDistance (sampleDraws [1/2, 1/2] 0) = lit08 / 2"
    "mockDistance (sampleDraws [1/2, 1/2] (Suc 0)) = lit08 / 2"
    "mockDistance (sampleDraws [1/2, 1/2] 1) = lit08 / 2"
    by (simp_all add: sampleDraws_def mockDistance_half)
  have "bestMatchLoop (sampleDraws [1/2, 1/2]) [bob, alice] 0 None
     = Some \<lparr>match_name = ''Bob'', distance = lit08 / 2\<rparr>"
    using lit_order(2) by (simp add: d bob_def Let_def)
  then show ?thesis
    by (simp add: newestFirst_def alice_def bob_def d)
qed

section \<open>The three ways a frame is handled\<close>

lemma processFrame_resume_empty:
  "fr_detections fr = [] \<Longrightarrow>
   processFrame_resume pf fr s =
     s\<lparr>recognitionResults := [], statistics := (statistics s)\<lparr>detectedFaces := 0\<rparr>\<rparr>"
  by (simp add: processFrame_resume_def)

lemma processFrame_resume_keep:
  assumes "fr_detections fr \<noteq> []"
    and "fr_clock fr (length (fr_detections fr)) - lastFrameTimeRef s < 1000"
  shows "processFrame_resume pf fr s =
     s\<lparr>recognitionResults :=
         frameResults (fr_random fr) (fr_clock fr) (cap_registeredFaces pf) (fr_detections fr),
       frameCountRef := Suc (frameCountRef s),
       recognitionHistory :=
         take 100 (frameResults (fr_random fr) (fr_clock fr) (cap_registeredFaces pf)
                     (fr_detections fr) @ recognitionHistory s)\<rparr>"
  using assms by (simp add: processFrame_resume_def Let_def)

lemma processFrame_resume_flush:
  assumes "fr_detections fr \<noteq> []"
    and "1000 \<le> fr_clock fr (length (fr_detections fr)) - lastFrameTimeRef s"
  shows "processFrame_resume pf fr s =
     s\<lparr>recognitionResults :=
         frameResults (fr_random fr) (fr_clock fr) (cap_registeredFaces pf) (fr_detections fr),
       frameCountRef := 0,
       statistics :=
         \<lparr>detectedFaces = length (fr_detections fr),
          recognitionAccuracy =
            roundDouble
              (roundDouble
                 (real (matchedCount
                    (frameResults (fr_random fr) (fr_clock fr) (cap_registeredFaces pf)
                       (fr_detections fr)))
                  / real (length (fr_detections fr)))
               * 100),
          frameRate =
            roundDouble
              (real (Suc (frameCountRef s) * 1000) /
               real_of_int (fr_clock fr (length (fr_detections fr)) - lastFrameTimeRef s)),
          totalRecognitions =
            totalRecognitions (statistics s) +
            matchedCount
              (frameResults (fr_random fr) (fr_clock fr) (cap_registeredFaces pf)
                 (fr_detections fr))\<rparr>,
       lastFrameTimeRef := fr_clock fr (length (fr_detections fr)),
       recognitionHistory :=
         take 100 (frameResults (fr_random fr) (fr_clock fr) (cap_registeredFaces pf)
                     (fr_detections fr) @ recognitionHistory s)\<rparr>"
proof -
  let ?results = "frameResults (fr_random fr) (fr_clock fr) (cap_registeredFaces pf) (fr_detections fr)"
  have len: "length ?results = length (fr_detections fr)" by (rule frameResults_length)
  with assms(1) have "?results \<noteq> []" by auto
  with assms len show ?thesis
    by (simp add: processFrame_resume_def Let_def)
qed

lemma matchedCount_names:
  "matchedCount rs = length (filter (\<lambda>n. n \<noteq> ''Unknown Person'') (map result_name rs))"
  by (simp add: matchedCount_def filter_map o_def)

text \<open>
  Sample frames with Alice in the gallery.
\<close>

lemma names_one_matched:
  "map result_name (frameResults (sampleDraws [1/4, u]) clk [alice] [face0]) = [''Alice'']"
  using lit_order(1)
  by (simp add: frameResults_def bestMatchLoop_single sampleDraws_def mockDistance_quarter
      nameOf_def alice_def del: bestMatchLoop.simps)

lemma names_one_unmatched:
  "map result_name (frameResults (sampleDraws [7/8, u]) clk [alice] [face0])
     = [''Unknown Person'']"
  using mockDistance_far [of "7/8"]
  by (simp add: frameResults_def bestMatchLoop_single sampleDraws_def nameOf_def
      del: bestMatchLoop.simps)

lemma names_matched_unmatched:
  "map result_name (frameResults (sampleDraws [1/4, u, 7/8, v]) clk [alice] [face0, face0])
     = [''Alice'', ''Unknown Person'']"
  using lit_order(1) mockDistance_far [of "7/8"]
  by (simp add: frameResults_def bestMatchLoop_single sampleDraws_def mockDistance_quarter
      nameOf_def alice_def del: bestMatchLoop.simps)

lemma sampleFrame_fields:
  "fr_detections (sampleFrame dets draws readings) = dets"
  "fr_random (sampleFrame dets draws readings) = sampleDraws draws"
  "fr_clock (sampleFrame dets draws readings) = sampleClock readings"
  "cap_registeredFaces (activeFrame faces) = faces"
  by (simp_all add: sampleFrame_def activeFrame_def)

section \<open>A frame without faces\<close>

text \<open>
  Claim C5, as the code has it.  When the detector returns no face, the rest of
  \<open>processFrame\<close> publishes the empty result list, sets \<open>detectedFaces\<close> to 0 and
  returns: frame rate, accuracy, total recognitions, the frame counter, the start of
  the window and the history stay as they were.
\<close>

theorem empty_frame_only_clears:
  assumes "fr_detections fr = []"
  shows "recognitionResults (processFrame_resume pf fr s) = [] \<and>
         detectedFaces (statistics (processFrame_resume pf fr s)) = 0 \<and>
         frameRate (statistics (processFrame_resume pf fr s)) = frameRate (statistics s) \<and>
         recognitionAccuracy (statistics (processFrame_resume pf fr s))
           = recognitionAccuracy (statistics s) \<and>
         totalRecognitions (statistics (processFrame_resume pf fr s))
           = totalRecognitions (statistics s) \<and>
         frameCountRef (processFrame_resume pf fr s) = frameCountRef s \<and>
         lastFrameTimeRef (processFrame_resume pf fr s) = lastFrameTimeRef s \<and>
         recognitionHistory (processFrame_resume pf fr s) = recognitionHistory s"
  using assms by (simp add: processFrame_resume_def)

theorem empty_frame_only_clears_witness:
  "recognitionResults (processFrame_resume (activeFrame [alice]) (sampleFrame [] [] [3000]) (mount 0)) = [] \<and>
   frameCountRef (processFrame_resume (activeFrame [alice]) (sampleFrame [] [] [3000]) (mount 0)) = 0 \<and>
   lastFrameTimeRef (processFrame_resume (activeFrame [alice]) (sampleFrame [] [] [3000]) (mount 0)) = 0"
proof -
  have "fr_detections (sampleFrame [] [] [3000]) = []" by (simp add: sampleFrame_def)
  from empty_frame_only_clears [OF this, of "activeFrame [alice]" "mount 0"]
  show ?thesis by (simp add: mount_def)
qed

text \<open>
  Claim C5 as stated fails.  A first frame with two faces, one of them matched, is
  flushed at time 1000: accuracy 50, frame rate 1.  An empty frame two seconds later
  leaves accuracy 50 and frame rate 1, and the window still starts at 1000.
\<close>

theorem empty_frame_leaves_stale_statistics:
  "recognitionResults
     (processFrames
        [(activeFrame [alice], sampleFrame [face0, face0] [1/4, 1/3, 7/8, 1/3] [990, 995, 1000]),
         (activeFrame [alice], sampleFrame [] [] [3000])]
        (mount 0)) = [] \<and>
   recognitionAccuracy (statistics
     (processFrames
        [(activeFrame [alice], sampleFrame [face0, face0] [1/4, 1/3, 7/8, 1/3] [990, 995, 1000]),
         (activeFrame [alice], sampleFrame [] [] [3000])]
        (mount 0))) = 50 \<and>
   frameRate (statistics
     (processFrames
        [(activeFrame [alice], sampleFrame [face0, face0] [1/4, 1/3, 7/8, 1/3] [990, 995, 1000]),
         (activeFrame [alice], sampleFrame [] [] [3000])]
        (mount 0))) = 1 \<and>
   lastFrameTimeRef
     (processFrames
        [(activeFrame [alice], sampleFrame [face0, face0] [1/4, 1/3, 7/8, 1/3] [990, 995, 1000]),
         (activeFrame [alice], sampleFrame [] [] [3000])]
        (mount 0)) = 1000"
proof -
  let ?pf = "activeFrame [alice]"
  let ?f1 = "sampleFrame [face0, face0] [1/4, 1/3, 7/8, 1/3] [990, 995, 1000]"
  let ?f2 = "sampleFrame [] [] [3000]"
  define s1 where "s1 = processFrame_resume ?pf ?f1 (mount 0)"
  have m: "matchedCount (frameResults (sampleDraws [1/4, 1/3, 7/8, 1/3])
      (sampleClock [990, 995, 1000]) [alice] [face0, face0]) = 1"
    by (simp add: matchedCount_names names_matched_unmatched)
  have due: "fr_detections ?f1 \<noteq> []"
    "1000 \<le> fr_clock ?f1 (length (fr_detections ?f1)) - lastFrameTimeRef (mount 0)"
    by (simp_all add: sampleFrame_fields sampleClock_def mount_def)
  have stats1: "recognitionAccuracy (statistics s1) = 50" "frameRate (statistics s1) = 1"
    and start1: "lastFrameTimeRef s1 = 1000"
    unfolding s1_def processFrame_resume_flush [OF due]
    by (simp_all add: sampleFrame_fields sampleClock_def mount_def m
        roundDouble_half roundDouble_small_numerals)
  have empty: "fr_detections ?f2 = []" by (simp add: sampleFrame_fields)
  have "processFrames [(?pf, ?f1), (?pf, ?f2)] (mount 0) = processFrame_resume ?pf ?f2 s1"
    by (simp add: s1_def)
  then show ?thesis
    by (simp add: processFrame_resume_empty [OF empty] stats1 start1)
qed

section \<open>The recognition history\<close>








section \<open>Flushing the statistics\<close>

text \<open>
  Frames that stay in the window leave its start and the total of recognitions as they
  are, and the frame counter counts those of them that have a face.
\<close>

lemma window_kept:
  assumes "list_all (staysInWindow (lastFrameTimeRef s)) calls"
  shows "frameCountRef (processFrames calls s) = frameCountRef s + framesWithFaces calls \<and>
         lastFrameTimeRef (processFrames calls s) = lastFrameTimeRef s \<and>
         totalRecognitions (statistics (processFrames calls s)) = totalRecognitions (statistics s)"
  using assms
proof (induction calls arbitrary: s)
  case Nil
  then show ?case by (simp add: framesWithFaces_def)
next
  case (Cons call calls)
  let ?s' = "processFrame_resume (fst call) (snd call) s"
  from Cons.prems have stay: "staysInWindow (lastFrameTimeRef s) call"
    and rest: "list_all (staysInWindow (lastFrameTimeRef s)) calls"
    by simp_all
  have step: "frameCountRef ?s' =
        frameCountRef s + (if fr_detections (snd call) = [] then 0 else 1) \<and>
      lastFrameTimeRef ?s' = lastFrameTimeRef s \<and>
      totalRecognitions (statistics ?s') = totalRecognitions (statistics s)"
  proof (cases "fr_detections (snd call) = []")
    case True
    then show ?thesis by (simp add: processFrame_resume_empty)
  next
    case False
    with stay have "fr_clock (snd call) (length (fr_detections (snd call))) - lastFrameTimeRef s < 1000"
      by (simp add: staysInWindow_def)
    with False show ?thesis by (simp add: processFrame_resume_keep)
  qed
  with rest have "list_all (staysInWindow (lastFrameTimeRef ?s')) calls" by simp
  from Cons.IH [OF this] step show ?case
    by (simp add: framesWithFaces_def)
qed

lemma totalRecognitions_never_decreases:
  "totalRecognitions (statistics s) \<le> totalRecognitions (statistics (processFrame_resume pf fr s))"
  by (simp add: processFrame_resume_def Let_def)

text \<open>
  Claim C9, as the code has it.  A window starts with the frame counter at 0.  After
  frames that stay in the window, a frame with at least one face that is handled
  1000 ms or more after the start of the window flushes the statistics.  The frame
  rate is the number of frames with a face since the start of the window, this one
  included, times 1000, divided by the milliseconds elapsed.  The accuracy is, in
  percent, the share of the results of this frame alone whose name is not
  \<open>Unknown Person\<close> among the detections of this frame.  That number of results is
  added to the total of recognitions, which therefore does not decrease.  The number of
  detected faces is that of this frame.  The frame counter returns to 0 and the next
  window starts at the clock reading of the flush.  Both quotients are doubles.
\<close>

theorem flush_reports_window_and_frame:
  assumes window: "frameCountRef s0 = 0"
    and kept: "list_all (staysInWindow (lastFrameTimeRef s0)) calls"
    and faces: "fr_detections fr \<noteq> []"
    and due: "1000 \<le> fr_clock fr (length (fr_detections fr)) - lastFrameTimeRef s0"
  shows "frameRate (statistics (processFrame_resume pf fr (processFrames calls s0))) =
           roundDouble
             (real ((framesWithFaces calls + 1) * 1000) /
              real_of_int (fr_clock fr (length (fr_detections fr)) - lastFrameTimeRef s0)) \<and>
         recognitionAccuracy (statistics (processFrame_resume pf fr (processFrames calls s0))) =
           roundDouble
             (roundDouble
                (real (length (filter (\<lambda>r. result_name r \<noteq> ''Unknown Person'')
                   (frameResults (fr_random fr) (fr_clock fr) (cap_registeredFaces pf)
                      (fr_detections fr))))
                 / real (length (fr_detections fr)))
              * 100) \<and>
         totalRecognitions (statistics (processFrame_resume pf fr (processFrames calls s0))) =
           totalRecognitions (statistics s0) +
           length (filter (\<lambda>r. result_name r \<noteq> ''Unknown Person'')
             (frameResults (fr_random fr) (fr_clock fr) (cap_registeredFaces pf)
                (fr_detections fr))) \<and>
         totalRecognitions (statistics s0)
           \<le> totalRecognitions (statistics (processFrame_resume pf fr (processFrames calls s0))) \<and>
         detectedFaces (statistics (processFrame_resume pf fr (processFrames calls s0)))
           = length (fr_detections fr) \<and>
         frameCountRef (processFrame_resume pf fr (processFrames calls s0)) = 0 \<and>
         lastFrameTimeRef (processFrame_resume pf fr (processFrames calls s0))
           = fr_clock fr (length (fr_detections fr))"
proof -
  let ?s = "processFrames calls s0"
  from window_kept [OF kept] window
  have count: "frameCountRef ?s = framesWithFaces calls"
    and start: "lastFrameTimeRef ?s = lastFrameTimeRef s0"
    and total: "totalRecognitions (statistics ?s) = totalRecognitions (statistics s0)"
    by simp_all
  have due': "1000 \<le> fr_clock fr (length (fr_detections fr)) - lastFrameTimeRef ?s"
    using due start by simp
  show ?thesis
    unfolding processFrame_resume_flush [OF faces due']
    by (simp add: count start total matchedCount_def)
qed

text \<open>
  A frame with one face at time 500, then a frame with two faces, one of them matched,
  at time 1000: frame rate 2, accuracy 50, one recognition in total.
\<close>

theorem flush_reports_window_and_frame_witness:
  "frameRate (statistics (processFrame_resume (activeFrame [alice])
      (sampleFrame [face0, face0] [1/4, 3/8, 7/8, 3/8] [990, 995, 1000])
      (processFrames [(activeFrame [alice], sampleFrame [face0] [1/4, 3/8] [400, 500])]
         (mount 0)))) = 2 \<and>
   recognitionAccuracy (statistics (processFrame_resume (activeFrame [alice])
      (sampleFrame [face0, face0] [1/4, 3/8, 7/8, 3/8] [990, 995, 1000])
      (processFrames [(activeFrame [alice], sampleFrame [face0] [1/4, 3/8] [400, 500])]
         (mount 0)))) = 50 \<and>
   totalRecognitions (statistics (processFrame_resume (activeFrame [alice])
      (sampleFrame [face0, face0] [1/4, 3/8, 7/8, 3/8] [990, 995, 1000])
      (processFrames [(activeFrame [alice], sampleFrame [face0] [1/4, 3/8] [400, 500])]
         (mount 0)))) = 1 \<and>
   frameCountRef (processFrame_resume (activeFrame [alice])
      (sampleFrame [face0, face0] [1/4, 3/8, 7/8, 3/8] [990, 995, 1000])
      (processFrames [(activeFrame [alice], sampleFrame [face0] [1/4, 3/8] [400, 500])]
         (mount 0))) = 0"
proof -
  let ?pf = "activeFrame [alice]"
  let ?calls = "[(?pf, sampleFrame [face0] [1/4, 3/8] [400, 500])]"
  let ?fr = "sampleFrame [face0, face0] [1/4, 3/8, 7/8, 3/8] [990, 995, 1000]"
  have window: "frameCountRef (mount 0) = 0" by (simp add: mount_def)
  have kept: "list_all (staysInWindow (lastFrameTimeRef (mount 0))) ?calls"
    by (simp add: staysInWindow_def sampleFrame_fields sampleClock_def mount_def)
  have faces: "fr_detections ?fr \<noteq> []" by (simp add: sampleFrame_fields)
  have due: "1000 \<le> fr_clock ?fr (length (fr_detections ?fr)) - lastFrameTimeRef (mount 0)"
    by (simp add: sampleFrame_fields sampleClock_def mount_def)
  have m: "length (filter (\<lambda>r. result_name r \<noteq> ''Unknown Person'')
      (frameResults (sampleDraws [1/4, 3/8, 7/8, 3/8]) (sampleClock [990, 995, 1000]) [alice]
         [face0, face0])) = 1"
    using matchedCount_names [of "frameResults (sampleDraws [1/4, 3/8, 7/8, 3/8])
        (sampleClock [990, 995, 1000]) [alice] [face0, face0]"]
    by (simp add: matchedCount_def names_matched_unmatched)
  from flush_reports_window_and_frame [OF window kept faces due, of ?pf]
  show ?thesis
    by (simp add: sampleFrame_fields sampleClock_def mount_def m framesWithFaces_def
        roundDouble_half roundDouble_small_numerals)
qed

text \<open>
  Claim C9 as stated fails for a window of two frames.  The first, at time 500, has one
  face, matched; it does not flush.  The second, at time 1000, has one face, unmatched,
  and flushes.  One of the two detections of the window was matched, yet the accuracy
  reported is 0 and the total of recognitions stays 0.
\<close>

theorem flush_forgets_earlier_frames:
  "frameCountRef (processFrames
      [(activeFrame [alice], sampleFrame [face0] [1/4, 1/3] [400, 500])] (mount 0)) = 1 \<and>
   matchedCount (recognitionResults (processFrames
      [(activeFrame [alice], sampleFrame [face0] [1/4, 1/3] [400, 500])] (mount 0))) = 1 \<and>
   frameRate (statistics (processFrames
      [(activeFrame [alice], sampleFrame [face0] [1/4, 1/3] [400, 500]),
       (activeFrame [alice], sampleFrame [face0] [7/8, 1/3] [900, 1000])]
      (mount 0))) = 2 \<and>
   recognitionAccuracy (statistics (processFrames
      [(activeFrame [alice], sampleFrame [face0] [1/4, 1/3] [400, 500]),
       (activeFrame [alice], sampleFrame [face0] [7/8, 1/3] [900, 1000])]
      (mount 0))) = 0 \<and>
   totalRecognitions (statistics (processFrames
      [(activeFrame [alice], sampleFrame [face0] [1/4, 1/3] [400, 500]),
       (activeFrame [alice], sampleFrame [face0] [7/8, 1/3] [900, 1000])]
      (mount 0))) = 0"
proof -
  let ?pf = "activeFrame [alice]"
  let ?f1 = "sampleFrame [face0] [1/4, 1/3] [400, 500]"
  let ?f2 = "sampleFrame [face0] [7/8, 1/3] [900, 1000]"
  define s1 where "s1 = processFrame_resume ?pf ?f1 (mount 0)"
  have m1: "matchedCount (frameResults (sampleDraws [1/4, 1/3]) (sampleClock [400, 500])
      [alice] [face0]) = 1"
    by (simp add: matchedCount_names names_one_matched)
  have m2: "matchedCount (frameResults (sampleDraws [7/8, 1/3]) (sampleClock [900, 1000])
      [alice] [face0]) = 0"
    by (simp add: matchedCount_names names_one_unmatched)
  have keep: "fr_detections ?f1 \<noteq> []"
    "fr_clock ?f1 (length (fr_detections ?f1)) - lastFrameTimeRef (mount 0) < 1000"
    by (simp_all add: sampleFrame_fields sampleClock_def mount_def)
  have s1: "frameCountRef s1 = 1" "matchedCount (recognitionResults s1) = 1"
    "lastFrameTimeRef s1 = 0" "totalRecognitions (statistics s1) = 0"
    unfolding s1_def processFrame_resume_keep [OF keep]
    by (simp_all add: sampleFrame_fields mount_def m1)
  have due: "fr_detections ?f2 \<noteq> []"
    "1000 \<le> fr_clock ?f2 (length (fr_detections ?f2)) - lastFrameTimeRef s1"
    by (simp_all add: sampleFrame_fields sampleClock_def s1)
  have s2: "frameRate (statistics (processFrame_resume ?pf ?f2 s1)) = 2"
    "recognitionAccuracy (statistics (processFrame_resume ?pf ?f2 s1)) = 0"
    "totalRecognitions (statistics (processFrame_resume ?pf ?f2 s1)) = 0"
    unfolding processFrame_resume_flush [OF due]
    by (simp_all add: sampleFrame_fields sampleClock_def s1 m2 roundDouble_small_numerals)
  have "processFrames [(?pf, ?f1)] (mount 0) = s1"
    "processFrames [(?pf, ?f1), (?pf, ?f2)] (mount 0) = processFrame_resume ?pf ?f2 s1"
    by (simp_all add: s1_def)
  with s1 s2 show ?thesis by simp
qed

section \<open>The interval timer\<close>






text \<open>
  How the component wires the timer is a separate matter.  \<open>toggleRecognition\<close>
  hands \<open>setInterval\<close> the \<open>processFrame\<close> of the render in which recognition was
  still inactive, and that function returns at its first guard on every tick: in a run
  from mount no tick reaches the detector.
\<close>

lemma timersInert_mount: "timersInert (mount t0)"
  by (simp add: timersInert_def mount_def)

lemma timersInert_toggleRecognition: "timersInert s \<Longrightarrow> timersInert (snd (toggleRecognition s))"
  by (auto simp: timersInert_def toggleRecognition_def clearInterval_def processFrame_of_def
      list_all_iff split: option.splits)

lemma timersInert_tick:
  assumes "timersInert s"
  shows "step (Tick h ready) s = s"
proof (cases "map_of (timers s) h")
  case None
  then show ?thesis by simp
next
  case (Some pf)
  then have "(h, pf) \<in> set (timers s)" by (rule map_of_SomeD)
  with assms have "\<not> cap_isRecognitionActive pf"
    by (auto simp: timersInert_def list_all_iff)
  with Some show ?thesis by (simp add: processFrame_begin_def)
qed

lemma timersInert_step: "timersInert s \<Longrightarrow> timersInert (step e s)"
proof (cases e)
  case (Tick h ready)
  assume "timersInert s"
  with Tick show ?thesis by (simp only: timersInert_tick)
next
  case ToggleRecognition
  assume "timersInert s"
  with ToggleRecognition show ?thesis by (simp add: timersInert_toggleRecognition)
qed (auto simp: timersInert_def stopCamera_def loadRegisteredFaces_def split: option.splits)

lemma timersInert_run: "timersInert s \<Longrightarrow> timersInert (run es s)"
  by (induction es arbitrary: s) (simp_all add: timersInert_step)

lemma ticks_never_reach_detector:
  "inFlight (run es (mount t0)) = []"
  "detectCalls (run es (mount t0)) = 0"
  "step (Tick h ready) (run es (mount t0)) = run es (mount t0)"
proof -
  have inert: "timersInert (run es (mount t0))"
    by (rule timersInert_run) (rule timersInert_mount)
  then show "inFlight (run es (mount t0)) = []" "detectCalls (run es (mount t0)) = 0"
    by (simp_all add: timersInert_def)
  show "step (Tick h ready) (run es (mount t0)) = run es (mount t0)"
    using inert by (rule timersInert_tick)
qed

section \<open>Starting recognition without a camera\<close>

text \<open>
  Claim C7.  The button starts recognition when \<open>isRecognitionActive\<close> is false.
  If the session is then not in \<open>CameraReady\<close>, \<open>toggleRecognition\<close> shows the
  destructive toast \<open>Camera Required\<close> and returns with the state exactly as it was.
\<close>

theorem start_without_camera_rejected:
  assumes "\<not> isRecognitionActive s" and "sessionState s \<noteq> CameraReady"
  shows "toggleRecognition s = (Some cameraRequired, s) \<and>
         step ToggleRecognition s = s \<and>
         toast_variant cameraRequired = ''destructive''"
  using assms
  by (simp add: toggleRecognition_def sessionState_def cameraRequired_def split: if_splits)

theorem start_without_camera_rejected_witness:
  "\<not> isRecognitionActive (mount 0) \<and> sessionState (mount 0) = Idle \<and>
   toggleRecognition (mount 0) = (Some cameraRequired, mount 0)"
proof -
  have a: "\<not> isRecognitionActive (mount 0)" by (simp add: mount_def)
  have b: "sessionState (mount 0) \<noteq> CameraReady" by (simp add: sessionState_def mount_def)
  have c: "sessionState (mount 0) = Idle" by (simp add: sessionState_def mount_def)
  from start_without_camera_rejected [OF a b] a c show ?thesis by simp
qed

end
